theory Spec2Isabelle
  imports Main
begin

section \<open>JavaScript values used by the plugin\<close>

text \<open>
  Strings are modelled as \<^typ>\<open>string\<close>, one \<^typ>\<open>char\<close> per UTF-16 code unit, for the
  code points U+0000 to U+00FF. The built-in string functions below are the
  ECMAScript ones restricted to that range.

  A JavaScript \<open>number\<close> holding a heading level is either a natural number or
  \<open>NaN\<close> (what \<open>parseInt\<close> gives on a string without leading digits).
\<close>

datatype number = NaN | Num nat

text \<open>\<open>===\<close> on numbers: \<open>NaN\<close> is not equal to anything, itself included.\<close>

fun strictEq :: "number \<Rightarrow> number \<Rightarrow> bool" where
  "strictEq (Num a) (Num b) = (a = b)"
| "strictEq _ _ = False"

text \<open>\<open>String.prototype.repeat\<close>: the count \<open>NaN\<close> is converted to 0.\<close>

fun repeat :: "string \<Rightarrow> number \<Rightarrow> string" where
  "repeat s NaN = []"
| "repeat s (Num n) = concat (replicate n s)"

text \<open>White space and line terminators stripped by \<open>String.prototype.trim\<close>:
  TAB, LF, VT, FF, CR, SPACE and NO-BREAK SPACE.\<close>

definition isWhiteSpace :: "char \<Rightarrow> bool" where
  "isWhiteSpace c = (of_char c \<in> {9, 10, 11, 12, 13, 32, 160 :: nat})"

definition trim :: "string \<Rightarrow> string" where
  "trim s = rev (dropWhile isWhiteSpace (rev (dropWhile isWhiteSpace s)))"

text \<open>\<open>String.prototype.toLowerCase\<close>: A to Z, and the upper-case letters
  U+00C0 to U+00DE (U+00D7, the multiplication sign, excepted) move up by 32.\<close>

definition lowerChar :: "char \<Rightarrow> char" where
  "lowerChar c =
     (let n = (of_char c :: nat)
      in if (65 \<le> n \<and> n \<le> 90) \<or> (192 \<le> n \<and> n \<le> 222 \<and> n \<noteq> 215)
         then char_of (n + 32) else c)"

definition toLowerCase :: "string \<Rightarrow> string" where
  "toLowerCase s = map lowerChar s"

text \<open>ASCII upper-casing, as \<open>Element.tagName\<close> applies it to the local name of
  an HTML element.\<close>

definition upperAscii :: "char \<Rightarrow> char" where
  "upperAscii c =
     (let n = (of_char c :: nat)
      in if 97 \<le> n \<and> n \<le> 122 then char_of (n - 32) else c)"

text \<open>\<open>s.split(',')\<close>: the empty string gives one empty piece.\<close>

fun split :: "char \<Rightarrow> string \<Rightarrow> string list" where
  "split sep [] = [[]]"
| "split sep (c # cs) =
     (if c = sep then [] # split sep cs
      else (case split sep cs of
              [] \<Rightarrow> [[c]]
            | piece # pieces \<Rightarrow> (c # piece) # pieces))"

text \<open>\<open>s.substring(1)\<close>.\<close>

definition substring1 :: "string \<Rightarrow> string" where
  "substring1 s = drop 1 s"

text \<open>\<open>parseInt\<close> on a string of decimal digits followed by anything: the value
  of the leading digits, \<open>NaN\<close> when there is none. (Signs, leading white space
  and the \<open>0x\<close> prefix do not occur in what is left of a tag name.)\<close>

definition isDigit :: "char \<Rightarrow> bool" where
  "isDigit c = (48 \<le> (of_char c :: nat) \<and> (of_char c :: nat) \<le> 57)"

definition digitsValue :: "string \<Rightarrow> nat" where
  "digitsValue ds = foldl (\<lambda>acc c. 10 * acc + (of_char c - 48)) 0 ds"

definition parseInt :: "string \<Rightarrow> number" where
  "parseInt s =
     (case takeWhile isDigit s of
        [] \<Rightarrow> NaN
      | d # ds \<Rightarrow> Num (digitsValue (d # ds)))"

text \<open>\<open>encodeURIComponent\<close>: letters, digits and \<open>- _ . ! ~ * ' ( )\<close> are kept;
  every other character is written as the percent-escaped bytes of its UTF-8
  encoding (one byte below U+0080, two bytes from U+0080 to U+00FF).\<close>

definition isUnreserved :: "char \<Rightarrow> bool" where
  "isUnreserved c =
     (let n = (of_char c :: nat)
      in (65 \<le> n \<and> n \<le> 90) \<or> (97 \<le> n \<and> n \<le> 122) \<or> (48 \<le> n \<and> n \<le> 57)
         \<or> n \<in> {45, 95, 46, 33, 126, 42, 39, 40, 41})"

definition hexDigit :: "nat \<Rightarrow> char" where
  "hexDigit n = (if n < 10 then char_of (48 + n) else char_of (55 + n))"

definition percentByte :: "nat \<Rightarrow> string" where
  "percentByte b = [CHR ''%'', hexDigit (b div 16), hexDigit (b mod 16)]"

definition encodeChar :: "char \<Rightarrow> string" where
  "encodeChar c =
     (let n = (of_char c :: nat)
      in if isUnreserved c then [c]
         else if n < 128 then percentByte n
         else percentByte (192 + n div 64) @ percentByte (128 + n mod 64))"

definition encodeURIComponent :: "string \<Rightarrow> string" where
  "encodeURIComponent s = concat (map encodeChar s)"

section \<open>Settings and article records\<close>

record RandomWikipediaArticleSettings =
  minHeaders :: int
  maxRetries :: int
  disallowedHeaders :: string
  noteFolder :: string

definition DEFAULT_SETTINGS :: RandomWikipediaArticleSettings where
  "DEFAULT_SETTINGS =
     \<lparr> minHeaders = 3,
       maxRetries = 15,
       disallowedHeaders = ''See also, References, Further reading, External links, Notes, Contents, Source, Gallery, Additional sources, Other websites, Citations, Works cited, Footnotes, Links, Sources, Related, Bibliography'',
       noteFolder = '''' \<rparr>"

record ParsedHeader =
  level :: number
  "text" :: string

record ArticleData =
  title :: string
  link :: string
  headers :: "ParsedHeader list"
  datePrefix :: string

text \<open>\<open>getProcessedDisallowedHeaders\<close>: split at commas, trim, drop the empty
  entries, lower-case.\<close>

definition getProcessedDisallowedHeaders :: "RandomWikipediaArticleSettings \<Rightarrow> string list" where
  "getProcessedDisallowedHeaders settings =
     map toLowerCase
       (filter (\<lambda>h. length h > 0)
          (map trim (split (CHR '','') (disallowedHeaders settings))))"

section \<open>The parsed document\<close>

text \<open>
  The document that \<open>DOMParser.parseFromString\<close> builds is a tree of text nodes
  and elements. An element carries its local name, its class names and its
  children. Nodes are addressed by their path from the root (the child indices
  on the way down), which stands for the object reference that a \<open>NodeList\<close>
  holds.

  \<open>Element.remove()\<close> unlinks an element from its parent; the element and its
  subtree stay alive and every reference to them stays valid. The model keeps the
  element in place and sets its first field, so that paths are stable: a node
  whose flag is set is no longer a child of its parent for \<open>textContent\<close> and for
  the selectors, and is still reached by its path.
\<close>

datatype node =
    Text string
  | Element bool string "string list" "node list"

type_synonym path = "nat list"

fun isDetached :: "node \<Rightarrow> bool" where
  "isDetached (Text s) = False"
| "isDetached (Element d n cls kids) = d"

fun localName :: "node \<Rightarrow> string" where
  "localName (Text s) = []"
| "localName (Element d n cls kids) = n"

text \<open>\<open>Element.tagName\<close> of an HTML element: the local name in upper case.\<close>

definition tagName :: "node \<Rightarrow> string" where
  "tagName el = map upperAscii (localName el)"

text \<open>\<open>Node.textContent\<close>: the text of all descendants, in document order.\<close>

fun textContent :: "node \<Rightarrow> string"
  and textContents :: "node list \<Rightarrow> string" where
  "textContent (Text s) = s"
| "textContent (Element d n cls kids) = textContents kids"
| "textContents [] = []"
| "textContents (k # ks) =
     (if isDetached k then textContents ks else textContent k @ textContents ks)"

text \<open>The two kinds of selector the plugin uses: a class selector, and the
  list \<open>h2, h3, h4\<close> of type selectors. The markup has no doctype, so the
  document that the parser builds is in quirks mode, where a class selector
  matches a class name whatever the case of its ASCII letters.\<close>

definition lowerAscii :: "char \<Rightarrow> char" where
  "lowerAscii c =
     (let n = (of_char c :: nat)
      in if 65 \<le> n \<and> n \<le> 90 then char_of (n + 32) else c)"

fun hasClass :: "string \<Rightarrow> node \<Rightarrow> bool" where
  "hasClass c (Text s) = False"
| "hasClass c (Element d n cls kids) =
     (map lowerAscii c \<in> set (map (map lowerAscii) cls))"

fun isHeadingElement :: "node \<Rightarrow> bool" where
  "isHeadingElement (Text s) = False"
| "isHeadingElement (Element d n cls kids) = (n = ''h2'' \<or> n = ''h3'' \<or> n = ''h4'')"

text \<open>\<open>querySelectorAll\<close>: the paths, from the node it is called on, of the
  descendants that match, in document order. \<open>querySelector\<close> is its first
  result.\<close>

fun querySelectorAll :: "(node \<Rightarrow> bool) \<Rightarrow> node \<Rightarrow> path list"
  and matchesIn :: "(node \<Rightarrow> bool) \<Rightarrow> nat \<Rightarrow> node list \<Rightarrow> path list" where
  "querySelectorAll sel (Text s) = []"
| "querySelectorAll sel (Element d n cls kids) = matchesIn sel 0 kids"
| "matchesIn sel i [] = []"
| "matchesIn sel i (k # ks) =
     (if isDetached k then []
      else (if sel k then [[i]] else []) @ map ((#) i) (querySelectorAll sel k))
     @ matchesIn sel (Suc i) ks"

definition querySelector :: "(node \<Rightarrow> bool) \<Rightarrow> node \<Rightarrow> path option" where
  "querySelector sel n = (case querySelectorAll sel n of [] \<Rightarrow> None | p # ps \<Rightarrow> Some p)"

fun nodeAt :: "node \<Rightarrow> path \<Rightarrow> node option" where
  "nodeAt n [] = Some n"
| "nodeAt (Text s) (i # p) = None"
| "nodeAt (Element d n cls kids) (i # p) =
     (if i < length kids then nodeAt (kids ! i) p else None)"

text \<open>\<open>remove()\<close> on the node at a path.\<close>

fun detachAt :: "path \<Rightarrow> node \<Rightarrow> node" where
  "detachAt p (Text s) = Text s"
| "detachAt [] (Element d n cls kids) = Element True n cls kids"
| "detachAt (i # p) (Element d n cls kids) =
     (if i < length kids then Element d n cls (kids[i := detachAt p (kids ! i)])
      else Element d n cls kids)"

section \<open>The heading extractor\<close>

text \<open>
  The body of the \<open>forEach\<close> callback of \<open>parseWikipediaHtml\<close>. Its state is the
  document, which \<open>editSpan.remove()\<close> changes, and the array \<open>headers\<close>.
  \<open>headingEl\<close> is the element at path \<open>p\<close>; every path of the \<open>NodeList\<close>
  denotes an element, and the first case only makes the function total. The
  local variables \<open>level\<close>, \<open>text\<close> and \<open>headers\<close> are written \<open>lvl\<close>, \<open>txt\<close> and
  \<open>hdrs\<close>.
\<close>

definition headingCallback ::
  "string list \<Rightarrow> path \<Rightarrow> node \<times> ParsedHeader list \<Rightarrow> node \<times> ParsedHeader list" where
  "headingCallback processedDisallowedHeaders p state =
     (case state of (doc, hdrs) \<Rightarrow>
      (case nodeAt doc p of
         None \<Rightarrow> (doc, hdrs)
       | Some headingEl \<Rightarrow>
          (let lvl = parseInt (substring1 (tagName headingEl));
               text0 = trim (textContent headingEl);
               (doc', txt) =
                  (case querySelector (hasClass ''mw-editsection'') headingEl of
                     None \<Rightarrow> (doc, text0)
                   | Some editSpan \<Rightarrow>
                       (detachAt (p @ editSpan) doc,
                        trim (textContent (detachAt editSpan headingEl))))
           in if toLowerCase txt \<in> set processedDisallowedHeaders
              then (doc', hdrs)
              else if \<not> list_ex (\<lambda>h. text h = txt \<and> strictEq (level h) lvl) hdrs
                   then (doc', hdrs @ [\<lparr> level = lvl, text = txt \<rparr>])
                   else (doc', hdrs))))"

text \<open>
  The constant \<open>headingElements\<close> of \<open>parseWikipediaHtml\<close>: the headings are
  looked for under the first \<open>.mw-parser-output\<close> element, or in the whole
  document when there is none. The paths are those from the root of the
  document.
\<close>

definition headingElements :: "node \<Rightarrow> path list" where
  "headingElements doc =
     (let parserOutputDiv = querySelector (hasClass ''mw-parser-output'') doc
      in case parserOutputDiv of
           Some q \<Rightarrow>
             (case nodeAt doc q of
                Some el \<Rightarrow> map ((@) q) (querySelectorAll isHeadingElement el)
              | None \<Rightarrow> [])
         | None \<Rightarrow> querySelectorAll isHeadingElement doc)"

text \<open>\<open>parseWikipediaHtml\<close>. The HTML parser of the host is the argument
  \<open>parseFromString\<close>.\<close>

definition parseWikipediaHtml ::
  "(string \<Rightarrow> node) \<Rightarrow> RandomWikipediaArticleSettings \<Rightarrow> string \<Rightarrow> ParsedHeader list" where
  "parseWikipediaHtml parseFromString settings htmlContent =
     (let doc = parseFromString htmlContent;
          processedDisallowedHeaders = getProcessedDisallowedHeaders settings
      in snd (foldl (\<lambda>state p. headingCallback processedDisallowedHeaders p state)
                    (doc, []) (headingElements doc)))"

text \<open>The text of a node outside every element matched by a selector: what
  is left of \<open>textContent\<close> when all those elements are taken out.\<close>

fun textOutside :: "(node \<Rightarrow> bool) \<Rightarrow> node \<Rightarrow> string"
  and textsOutside :: "(node \<Rightarrow> bool) \<Rightarrow> node list \<Rightarrow> string" where
  "textOutside sel (Text s) = s"
| "textOutside sel (Element d n cls kids) = textsOutside sel kids"
| "textsOutside sel [] = []"
| "textsOutside sel (k # ks) =
     (if isDetached k \<or> sel k then textsOutside sel ks
      else textOutside sel k @ textsOutside sel ks)"

text \<open>The edit links inside a node: its descendants of class
  \<open>mw-editsection\<close>.\<close>

definition editSections :: "node \<Rightarrow> path list" where
  "editSections el = querySelectorAll (hasClass ''mw-editsection'') el"

text \<open>A node as it is after some edit links were removed from the document,
  set against the node as it was parsed: the same element, the same text outside
  the edit links, and no more edit links than before.\<close>

definition prunedFrom :: "node \<Rightarrow> node \<Rightarrow> bool" where
  "prunedFrom cur orig =
     (localName cur = localName orig
      \<and> textOutside (hasClass ''mw-editsection'') cur
          = textOutside (hasClass ''mw-editsection'') orig
      \<and> length (editSections cur) \<le> length (editSections orig))"

text \<open>The state of the \<open>forEach\<close> of \<open>parseWikipediaHtml\<close> after its first \<open>i\<close>
  calls of the callback: the document and the array \<open>headers\<close> as they are
  then.\<close>

definition stateAfter ::
  "(string \<Rightarrow> node) \<Rightarrow> RandomWikipediaArticleSettings \<Rightarrow> string \<Rightarrow> nat
     \<Rightarrow> node \<times> ParsedHeader list" where
  "stateAfter parseFromString settings htmlContent i =
     (let doc = parseFromString htmlContent;
          processedDisallowedHeaders = getProcessedDisallowedHeaders settings
      in foldl (\<lambda>state p. headingCallback processedDisallowedHeaders p state)
               (doc, []) (take i (headingElements doc)))"

section \<open>The document renderer\<close>

text \<open>
  \<open>formatMarkdown\<close>. The current time \<open>window.moment().format("YYYY-MM-DD HH:mm:ss")\<close>
  is the argument \<open>currentDateTime\<close>. The \<open>forEach\<close> that appends to
  \<open>headersMarkdown\<close> is a left fold.
\<close>

definition formatMarkdown :: "string \<Rightarrow> ArticleData \<Rightarrow> string" where
  "formatMarkdown currentDateTime articleData =
     (let headersMarkdown =
            (if length (headers articleData) > 0
             then foldl (\<lambda>md header.
                           md @ (let markdownLevel = repeat ''#'' (level header)
                                 in markdownLevel @ '' '' @ text header @ ''\<newline>\<newline>''))
                        ''\<newline>## Sections:\<newline>''
                        (headers articleData)
             else ''\<newline>No significant sections found for this article.\<newline>\<newline>'')
      in ''---\<newline>tags: wikipedia\<newline>---\<newline>\<newline>'' @ currentDateTime
         @ ''\<newline>**Related Topics**:\<newline>**Link**: '' @ link articleData
         @ ''\<newline># '' @ title articleData @ '' #wikipedia\<newline>''
         @ headersMarkdown @ ''\<newline>'')"

text \<open>Reading a rendered note line by line: the lines between line feeds, and
  the lines that Markdown takes as headings (they start with \<open>#\<close>).\<close>

fun splitLines :: "string \<Rightarrow> string list" where
  "splitLines s = split (CHR 0x0A) s"

fun isHeadingLine :: "string \<Rightarrow> bool" where
  "isHeadingLine [] = False"
| "isHeadingLine (c # cs) = (c = CHR ''#'')"

section \<open>The acquisition loop\<close>

text \<open>
  What the network gives back. \<open>fetch\<close> either rejects (no connection) or
  resolves with a response that has an \<open>ok\<close> flag and a status;
  \<open>response.json()\<close> either rejects (the body is not JSON) or gives the data.
  Of the data of the random-title endpoint the loop reads \<open>items[0].title\<close>,
  which raises a \<open>TypeError\<close> when there is no first item; of the data of the
  parse endpoint it reads \<open>apiData?.parse?.text\<close>, which may be missing.
\<close>

datatype 'a json = JsonSyntaxError | Json 'a

datatype 'a response = FetchRejected | Response bool nat "'a json"

datatype titleData = NoItems | Items string

datatype parseData = NoText | ParseText string

text \<open>The \<open>j\<close>-th attempt of a run (counted from 0) is the one that starts with
  \<open>retries = j\<close>. A network is any assignment of a response to the first call of
  every attempt, and to its second call for every page title asked for.\<close>

record network =
  randomTitle :: "nat \<Rightarrow> titleData response"
  parsePage :: "nat \<Rightarrow> string \<Rightarrow> parseData response"

text \<open>What the host supplies: the HTML parser, and the date
  \<open>window.moment().format("YYYY-MM-DD")\<close> at the time of acceptance.\<close>

record host =
  parseFromString :: "string \<Rightarrow> node"
  momentDate :: string

datatype error =
    NetworkError
  | RestApiError nat
  | MediaWikiApiError nat
  | SyntaxError
  | TypeError

datatype notice =
    FetchingAttempt nat
  | ParseFailedAttempt nat
  | NoSuitableArticle int

datatype event =
    ShowNotice notice nat
  | ConsoleError nat error
  | FetchRandomTitle
  | FetchParse string
  | SetTimeout nat

record loopState =
  foundSuitableArticle :: bool
  retries :: nat
  articleTitle :: string
  articleLink :: string
  articleHtml :: string
  parsedHeaders :: "ParsedHeader list"
  events :: "event list"

text \<open>Lines 178 to 183: the title, or the error thrown on the way to it.\<close>

fun readTitle :: "titleData response \<Rightarrow> error + string" where
  "readTitle FetchRejected = Inl NetworkError"
| "readTitle (Response ok status body) =
     (if \<not> ok then Inl (RestApiError status)
      else (case body of
              JsonSyntaxError \<Rightarrow> Inl SyntaxError
            | Json NoItems \<Rightarrow> Inl TypeError
            | Json (Items t) \<Rightarrow> Inr t))"

text \<open>Lines 195 to 201: \<open>apiData?.parse?.text || ''\<close>, or the error thrown.\<close>

fun readHtml :: "parseData response \<Rightarrow> error + string" where
  "readHtml FetchRejected = Inl NetworkError"
| "readHtml (Response ok status body) =
     (if \<not> ok then Inl (MediaWikiApiError status)
      else (case body of
              JsonSyntaxError \<Rightarrow> Inl SyntaxError
            | Json NoText \<Rightarrow> Inr []
            | Json (ParseText t) \<Rightarrow> Inr t))"

text \<open>The \<open>try\<close> block of one iteration. It completes with the error it threw,
  if any, and the state as the assignments before the throw left it.\<close>

definition tryBlock ::
  "host \<Rightarrow> RandomWikipediaArticleSettings \<Rightarrow> network \<Rightarrow> loopState \<Rightarrow> error option \<times> loopState" where
  "tryBlock h settings net st =
     (let st1 = st\<lparr> events := events st @ [FetchRandomTitle] \<rparr>
      in case readTitle (randomTitle net (retries st)) of
           Inl e \<Rightarrow> (Some e, st1)
         | Inr t \<Rightarrow>
            (let st2 = st1\<lparr> articleTitle := t,
                            articleLink := ''https://en.wikipedia.org/wiki/'' @ encodeURIComponent t \<rparr>;
                 st3 = st2\<lparr> events := events st2 @ [FetchParse t] \<rparr>
             in case readHtml (parsePage net (retries st) t) of
                  Inl e \<Rightarrow> (Some e, st3)
                | Inr html \<Rightarrow>
                   (let st4 = st3\<lparr> articleHtml := html \<rparr>;
                        st5 = st4\<lparr> parsedHeaders :=
                                      parseWikipediaHtml (parseFromString h) settings (articleHtml st4) \<rparr>
                    in if int (length (parsedHeaders st5)) \<ge> minHeaders settings
                       then (None, st5\<lparr> foundSuitableArticle := True \<rparr>)
                       else (None, st5\<lparr> retries := retries st5 + 1 \<rparr>))))"

text \<open>One iteration: the notice, the \<open>try\<close> block, and the \<open>catch\<close> clause, which
  catches whatever the block threw.\<close>

definition loopBody ::
  "host \<Rightarrow> RandomWikipediaArticleSettings \<Rightarrow> network \<Rightarrow> loopState \<Rightarrow> error option \<times> loopState" where
  "loopBody h settings net st =
     (let st0 = st\<lparr> events := events st @ [ShowNotice (FetchingAttempt (retries st + 1)) 1500] \<rparr>
      in case tryBlock h settings net st0 of
           (None, st') \<Rightarrow> (None, st')
         | (Some e, st') \<Rightarrow>
             (None, st'\<lparr> events := events st' @
                                 [ConsoleError (retries st' + 1) e,
                                  ShowNotice (ParseFailedAttempt (retries st' + 1)) 2500,
                                  SetTimeout 500],
                         retries := retries st' + 1 \<rparr>))"

text \<open>The \<open>while\<close> loop. An error that an iteration did not catch would end
  it.\<close>

function whileLoop ::
  "host \<Rightarrow> RandomWikipediaArticleSettings \<Rightarrow> network \<Rightarrow> loopState \<Rightarrow> error option \<times> loopState" where
  "whileLoop h settings net st =
     (if \<not> foundSuitableArticle st \<and> int (retries st) < maxRetries settings
      then (case loopBody h settings net st of
              (Some e, st') \<Rightarrow> (Some e, st')
            | (None, st') \<Rightarrow> whileLoop h settings net st')
      else (None, st))"
  by pat_completeness auto
termination
  by (relation "measure (\<lambda>(h, settings, net, st).
         nat (maxRetries settings - int (retries st)) + (if foundSuitableArticle st then 0 else 1))")
     (auto simp: loopBody_def tryBlock_def Let_def split: sum.splits prod.splits option.splits if_splits)

declare whileLoop.simps [simp del]

definition initialState :: loopState where
  "initialState =
     \<lparr> foundSuitableArticle = False, retries = 0, articleTitle = [], articleLink = [],
       articleHtml = [], parsedHeaders = [], events = [] \<rparr>"

text \<open>\<open>fetchAndProcessRandomWikipediaArticle\<close>: what the call completes with (an
  error, \<open>null\<close> or the article record) and what it did on the way.\<close>

definition fetchAndProcessRandomWikipediaArticle ::
  "host \<Rightarrow> RandomWikipediaArticleSettings \<Rightarrow> network \<Rightarrow> (error + ArticleData option) \<times> event list" where
  "fetchAndProcessRandomWikipediaArticle h settings net =
     (case whileLoop h settings net initialState of
        (Some e, st) \<Rightarrow> (Inl e, events st)
      | (None, st) \<Rightarrow>
          (if foundSuitableArticle st
           then (Inr (Some \<lparr> title = articleTitle st, link = articleLink st,
                             headers = parsedHeaders st, datePrefix = momentDate h \<rparr>),
                 events st)
           else (Inr None,
                 events st @ [ShowNotice (NoSuitableArticle (maxRetries settings)) 5000])))"

text \<open>How an attempt ends, read off the network: with an error, or with
  markup that has enough headings.\<close>

definition attemptFails :: "network \<Rightarrow> nat \<Rightarrow> bool" where
  "attemptFails net j =
     (case readTitle (randomTitle net j) of
        Inl e \<Rightarrow> True
      | Inr t \<Rightarrow> (case readHtml (parsePage net j t) of Inl e \<Rightarrow> True | Inr html \<Rightarrow> False))"

definition attemptSuitable ::
  "host \<Rightarrow> RandomWikipediaArticleSettings \<Rightarrow> network \<Rightarrow> nat \<Rightarrow> bool" where
  "attemptSuitable h settings net j =
     (case readTitle (randomTitle net j) of
        Inl e \<Rightarrow> False
      | Inr t \<Rightarrow>
         (case readHtml (parsePage net j t) of
            Inl e \<Rightarrow> False
          | Inr html \<Rightarrow>
              minHeaders settings
                \<le> int (length (parseWikipediaHtml (parseFromString h) settings html))))"

definition isFetchEvent :: "event \<Rightarrow> bool" where
  "isFetchEvent ev = (case ev of FetchRandomTitle \<Rightarrow> True | FetchParse t \<Rightarrow> True | _ \<Rightarrow> False)"

definition isAttemptNotice :: "event \<Rightarrow> bool" where
  "isAttemptNotice ev = (case ev of ShowNotice (FetchingAttempt k) d \<Rightarrow> True | _ \<Rightarrow> False)"

definition isErrorNotice :: "event \<Rightarrow> bool" where
  "isErrorNotice ev = (case ev of ShowNotice (ParseFailedAttempt k) d \<Rightarrow> True | _ \<Rightarrow> False)"

section \<open>Example inputs\<close>

text \<open>The candidate of the specification's rendering example, and one
  without headings.\<close>

definition exampleArticle :: ArticleData where
  "exampleArticle =
     \<lparr> title = ''Foo'', link = ''https://en.wikipedia.org/wiki/Foo'',
       headers = [\<lparr> level = Num 2, text = ''History'' \<rparr>], datePrefix = ''2024-01-01'' \<rparr>"

definition emptyArticle :: ArticleData where
  "emptyArticle =
     \<lparr> title = ''Foo'', link = ''https://en.wikipedia.org/wiki/Foo'',
       headers = [], datePrefix = ''2024-01-01'' \<rparr>"

text \<open>An article body with five headings: one with an edit link, one
  repeated, one on the default exclusion list.\<close>

definition exampleHtml :: string where
  "exampleHtml = ''<div class=mw-parser-output><h2>History<span class=mw-editsection>[edit]</span></h2><h3>Early life</h3><h3>Early life</h3><h2>Legacy</h2><h2>References</h2></div>''"

definition exampleDoc :: node where
  "exampleDoc =
     Element False ''#document'' []
       [Element False ''html'' []
          [Element False ''head'' [] [],
           Element False ''body'' []
             [Element False ''div'' [''mw-parser-output'']
                [Element False ''h2'' []
                   [Text ''History'',
                    Element False ''span'' [''mw-editsection''] [Text ''[edit]'']],
                 Element False ''h3'' [] [Text ''Early life''],
                 Element False ''h3'' [] [Text ''Early life''],
                 Element False ''h2'' [] [Text ''Legacy''],
                 Element False ''h2'' [] [Text ''References'']]]]]"

text \<open>A heading that holds two edit links.\<close>

definition twoEditHtml :: string where
  "twoEditHtml = ''<div class=mw-parser-output><h2>History<span class=mw-editsection>[edit]</span><span class=mw-editsection>[source]</span></h2></div>''"

definition twoEditDoc :: node where
  "twoEditDoc =
     Element False ''#document'' []
       [Element False ''html'' []
          [Element False ''head'' [] [],
           Element False ''body'' []
             [Element False ''div'' [''mw-parser-output'']
                [Element False ''h2'' []
                   [Text ''History'',
                    Element False ''span'' [''mw-editsection''] [Text ''[edit]''],
                    Element False ''span'' [''mw-editsection''] [Text ''[source]'']]]]]]"

text \<open>The HTML parser on the two bodies above; any other input is given the
  empty document.\<close>

definition exampleParser :: "string \<Rightarrow> node" where
  "exampleParser html =
     (if html = exampleHtml then exampleDoc
      else if html = twoEditHtml then twoEditDoc
      else Element False ''#document'' []
             [Element False ''html'' []
                [Element False ''head'' [] [], Element False ''body'' [] []]])"

text \<open>A body with two headings: the first holds two edit links, the second
  one.\<close>

definition mixedHtml :: string where
  "mixedHtml = ''<div class=mw-parser-output><h2>History<span class=mw-editsection>[edit]</span><span class=mw-editsection>[source]</span></h2><h3>Early life<span class=mw-editsection>[edit]</span></h3></div>''"

definition mixedDoc :: node where
  "mixedDoc =
     Element False ''#document'' []
       [Element False ''html'' []
          [Element False ''head'' [] [],
           Element False ''body'' []
             [Element False ''div'' [''mw-parser-output'']
                [Element False ''h2'' []
                   [Text ''History'',
                    Element False ''span'' [''mw-editsection''] [Text ''[edit]''],
                    Element False ''span'' [''mw-editsection''] [Text ''[source]'']],
                 Element False ''h3'' []
                   [Text ''Early life'',
                    Element False ''span'' [''mw-editsection''] [Text ''[edit]'']]]]]]"

definition mixedParser :: "string \<Rightarrow> node" where
  "mixedParser html =
     (if html = mixedHtml then mixedDoc
      else Element False ''#document'' []
             [Element False ''html'' []
                [Element False ''head'' [] [], Element False ''body'' [] []]])"

definition exampleHost :: host where
  "exampleHost = \<lparr> parseFromString = exampleParser, momentDate = ''2024-01-01'' \<rparr>"

text \<open>A network on which every call succeeds, and one on which the first
  attempt has no connection and the second gets status 503 for the page.\<close>

definition steadyNetwork :: network where
  "steadyNetwork =
     \<lparr> randomTitle = (\<lambda>j. Response True 200 (Json (Items ''Foo''))),
       parsePage = (\<lambda>j t. Response True 200 (Json (ParseText exampleHtml))) \<rparr>"

definition flakyNetwork :: network where
  "flakyNetwork =
     \<lparr> randomTitle = (\<lambda>j. if j = 0 then FetchRejected
                            else Response True 200 (Json (Items ''Foo''))),
       parsePage = (\<lambda>j t. if j = 1 then Response False 503 JsonSyntaxError
                            else Response True 200 (Json (ParseText exampleHtml))) \<rparr>"

section \<open>The heading extractor: no duplicates, nothing excluded\<close>

lemma heading_level:
  "isHeadingElement el \<Longrightarrow> parseInt (substring1 (tagName el)) \<in> {Num 2, Num 3, Num 4}"
  by (cases el)
     (auto simp: tagName_def upperAscii_def substring1_def parseInt_def isDigit_def
        digitsValue_def)

lemma isHeadingElement_localName:
  "isHeadingElement el = (localName el \<in> {''h2'', ''h3'', ''h4''})"
  by (cases el) auto

text \<open>Removing an element changes no local name anywhere in the document.\<close>

lemma localName_nodeAt_detachAt:
  "map_option localName (nodeAt (detachAt q doc) p) = map_option localName (nodeAt doc p)"
proof (induction q doc arbitrary: p rule: detachAt.induct)
  case (1 q s)
  show ?case by simp
next
  case (2 d n cls kids)
  show ?case by (cases p) simp_all
next
  case (3 i q d n cls kids)
  show ?case
  proof (cases p)
    case Nil
    then show ?thesis by simp
  next
    case (Cons j p')
    then show ?thesis using 3 by (auto simp: nth_list_update)
  qed
qed

lemma nodeAt_append:
  "nodeAt doc (q @ p) = (case nodeAt doc q of None \<Rightarrow> None | Some el \<Rightarrow> nodeAt el p)"
  by (induction doc q rule: nodeAt.induct) auto

text \<open>Every path that \<open>querySelectorAll\<close> returns leads to a node that matches.\<close>

lemma querySelectorAll_sound:
  "p \<in> set (querySelectorAll sel n) \<Longrightarrow> \<exists>el. nodeAt n p = Some el \<and> sel el"
  "p \<in> set (matchesIn sel i ks) \<Longrightarrow>
     \<exists>j p' el. p = (i + j) # p' \<and> j < length ks \<and> nodeAt (ks ! j) p' = Some el \<and> sel el"
proof (induction sel n and sel i ks arbitrary: p and p rule: querySelectorAll_matchesIn.induct)
  case (1 sel s)
  then show ?case by simp
next
  case (2 sel d n cls kids)
  then show ?case by fastforce
next
  case (3 sel i)
  then show ?case by simp
next
  case (4 sel i k ks)
  from "4.prems" consider
      (here) "\<not> isDetached k" "sel k" "p = [i]"
    | (below) p' where "\<not> isDetached k" "p = i # p'" "p' \<in> set (querySelectorAll sel k)"
    | (later) "p \<in> set (matchesIn sel (Suc i) ks)"
    by (auto split: if_splits)
  then show ?case
  proof cases
    case here
    then show ?thesis by (intro exI[of _ 0] exI[of _ "[]"] exI[of _ k]) simp
  next
    case below
    with "4.IH"(1) obtain el where "nodeAt k p' = Some el" "sel el" by blast
    with below show ?thesis by (intro exI[of _ 0] exI[of _ p'] exI[of _ el]) simp
  next
    case later
    with "4.IH"(2) obtain j p' el where "p = (Suc i + j) # p'" "j < length ks"
      "nodeAt (ks ! j) p' = Some el" "sel el" by blast
    then show ?thesis by (intro exI[of _ "Suc j"] exI[of _ p'] exI[of _ el]) simp
  qed
qed

lemma headingElements_are_headings:
  "\<forall>p \<in> set (headingElements doc). \<exists>el. nodeAt doc p = Some el \<and> isHeadingElement el"
proof (cases "querySelector (hasClass ''mw-parser-output'') doc")
  case None
  then show ?thesis
    using querySelectorAll_sound(1)[of _ isHeadingElement doc]
    by (auto simp: headingElements_def)
next
  case (Some q)
  show ?thesis
  proof (cases "nodeAt doc q")
    case None
    with Some show ?thesis by (simp add: headingElements_def)
  next
    case (Some root)
    with \<open>querySelector (hasClass ''mw-parser-output'') doc = Some q\<close> show ?thesis
      using querySelectorAll_sound(1)[of _ isHeadingElement root]
      by (auto simp: headingElements_def nodeAt_append)
  qed
qed

lemma strictEq_Num: "l \<noteq> NaN \<Longrightarrow> strictEq l' l = (l' = l)"
  by (cases l; cases l') auto

lemma some_same_header:
  assumes "l \<noteq> NaN"
  shows "list_ex (\<lambda>h. text h = t \<and> strictEq (level h) l) hs
           = (\<lparr> level = l, text = t \<rparr> \<in> set hs)"
proof -
  have "(text h = t \<and> level h = l) = (h = \<lparr> level = l, text = t \<rparr>)" for h :: ParsedHeader
    by (cases h) auto
  then show ?thesis using assms by (simp add: list_ex_iff strictEq_Num)
qed

lemma headingCallback_step:
  assumes el: "nodeAt d p = Some el" and hd: "isHeadingElement el"
    and acc: "distinct hs"
      "\<forall>h \<in> set hs. level h \<noteq> NaN \<and> toLowerCase (text h) \<notin> set dis"
  shows "distinct (snd (headingCallback dis p (d, hs)))"
    and "\<forall>h \<in> set (snd (headingCallback dis p (d, hs))).
           level h \<noteq> NaN \<and> toLowerCase (text h) \<notin> set dis"
proof -
  from heading_level[OF hd] have lv: "parseInt (substring1 (tagName el)) \<noteq> NaN" by auto
  have mem: "list_ex (\<lambda>h. text h = t \<and> strictEq (level h) (parseInt (substring1 (tagName el)))) hs
       = (\<lparr> level = parseInt (substring1 (tagName el)), text = t \<rparr> \<in> set hs)" for t
    using lv by (rule some_same_header)
  show "distinct (snd (headingCallback dis p (d, hs)))"
    using acc el lv by (auto simp: headingCallback_def Let_def mem split: option.splits)
  show "\<forall>h \<in> set (snd (headingCallback dis p (d, hs))).
          level h \<noteq> NaN \<and> toLowerCase (text h) \<notin> set dis"
    using acc el lv by (auto simp: headingCallback_def Let_def mem split: option.splits)
qed

lemma headingCallback_names:
  "map_option localName (nodeAt (fst (headingCallback dis p (d, hs))) r)
     = map_option localName (nodeAt d r)"
  by (auto simp: headingCallback_def Let_def localName_nodeAt_detachAt split: option.splits)

lemma forEach_accepted:
  assumes "\<forall>p \<in> set ps. \<exists>el. nodeAt d p = Some el \<and> isHeadingElement el"
    and "distinct hs"
    and "\<forall>h \<in> set hs. level h \<noteq> NaN \<and> toLowerCase (text h) \<notin> set dis"
  shows "distinct (snd (foldl (\<lambda>state p. headingCallback dis p state) (d, hs) ps))
     \<and> (\<forall>h \<in> set (snd (foldl (\<lambda>state p. headingCallback dis p state) (d, hs) ps)).
           level h \<noteq> NaN \<and> toLowerCase (text h) \<notin> set dis)"
  using assms
proof (induction ps arbitrary: d hs)
  case Nil
  then show ?case by simp
next
  case (Cons p ps)
  obtain d' hs' where step: "headingCallback dis p (d, hs) = (d', hs')"
    by (cases "headingCallback dis p (d, hs)")
  from Cons.prems(1) obtain el where el: "nodeAt d p = Some el" "isHeadingElement el"
    by auto
  have 1: "distinct hs'"
    and 2: "\<forall>h \<in> set hs'. level h \<noteq> NaN \<and> toLowerCase (text h) \<notin> set dis"
    using headingCallback_step[OF el Cons.prems(2,3)] step by simp_all
  have names: "map_option localName (nodeAt d' r) = map_option localName (nodeAt d r)" for r
    using headingCallback_names[of dis p d hs r] step by simp
  have 3: "\<forall>q \<in> set ps. \<exists>el. nodeAt d' q = Some el \<and> isHeadingElement el"
  proof
    fix q assume "q \<in> set ps"
    with Cons.prems(1) obtain e where e: "nodeAt d q = Some e" "isHeadingElement e" by auto
    with names[of q] obtain e' where "nodeAt d' q = Some e'" "localName e' = localName e"
      by (cases "nodeAt d' q") auto
    with e show "\<exists>el. nodeAt d' q = Some el \<and> isHeadingElement el"
      by (simp add: isHeadingElement_localName)
  qed
  show ?case using Cons.IH[OF 3 1 2] step by simp
qed

text \<open>A record is its pair of level and text.\<close>

lemma header_pair_inj: "inj_on (\<lambda>h :: ParsedHeader. (level h, text h)) A"
  by (rule inj_onI) simp

text \<open>
  Claim C1. Whatever the markup, the parser and the settings, the list that
  \<open>parseWikipediaHtml\<close> returns holds no two records with the same pair of level
  and text, and holds no record whose lower-cased text is on the processed list
  of disallowed headers.
\<close>

theorem parseWikipediaHtml_distinct_not_disallowed:
  "distinct (map (\<lambda>h. (level h, text h)) (parseWikipediaHtml P settings html))
   \<and> (\<forall>h \<in> set (parseWikipediaHtml P settings html).
         toLowerCase (text h) \<notin> set (getProcessedDisallowedHeaders settings))"
  using forEach_accepted[OF headingElements_are_headings,
          of "[]" "getProcessedDisallowedHeaders settings" "P html"]
  by (simp add: parseWikipediaHtml_def Let_def distinct_map header_pair_inj)

text \<open>The theorem on the example body: three records are left of the five
  headings.\<close>

theorem parseWikipediaHtml_distinct_not_disallowed_witness:
  "distinct (map (\<lambda>h. (level h, text h))
      (parseWikipediaHtml exampleParser DEFAULT_SETTINGS exampleHtml))
   \<and> \<lparr> level = Num 2, text = ''History'' \<rparr>
        \<in> set (parseWikipediaHtml exampleParser DEFAULT_SETTINGS exampleHtml)
   \<and> toLowerCase ''History'' \<notin> set (getProcessedDisallowedHeaders DEFAULT_SETTINGS)"
proof -
  have m: "\<lparr> level = Num 2, text = ''History'' \<rparr>
             \<in> set (parseWikipediaHtml exampleParser DEFAULT_SETTINGS exampleHtml)"
    by code_simp
  from parseWikipediaHtml_distinct_not_disallowed[of exampleParser DEFAULT_SETTINGS exampleHtml] m
  show ?thesis by force
qed

section \<open>The heading extractor: the text of the edit links\<close>

text \<open>Where no descendant matches a selector, nothing is outside
  \<open>textContent\<close>; where exactly one does, removing it leaves the text outside.\<close>

lemma no_match_textOutside:
  "querySelectorAll sel n = [] \<Longrightarrow> textOutside sel n = textContent n"
  "matchesIn sel i ks = [] \<Longrightarrow> textsOutside sel ks = textContents ks"
  by (induction sel n and sel i ks rule: querySelectorAll_matchesIn.induct)
     (auto split: if_splits)

lemma matchesIn_nonempty: "p \<in> set (matchesIn sel i ks) \<Longrightarrow> p \<noteq> []"
  using querySelectorAll_sound(2)[of p sel i ks] by auto

lemma querySelectorAll_nonempty: "p \<in> set (querySelectorAll sel n) \<Longrightarrow> p \<noteq> []"
  by (cases n) (auto dest: matchesIn_nonempty)

lemma isDetached_detachAt: "p \<noteq> [] \<Longrightarrow> isDetached (detachAt p k) = isDetached k"
  by (cases k; cases p) auto

lemma hasClass_detachAt: "hasClass c (detachAt p k) = hasClass c k"
  by (cases k; cases p) auto

lemma localName_detachAt: "localName (detachAt p k) = localName k"
  by (cases k; cases p) auto

lemma one_match_textContent:
  "querySelectorAll sel n = [q] \<Longrightarrow> \<forall>s. \<not> sel (Text s) \<Longrightarrow>
     textContent (detachAt q n) = textOutside sel n"
  "matchesIn sel i ks = [q] \<Longrightarrow> \<forall>s. \<not> sel (Text s) \<Longrightarrow>
     \<exists>j q'. q = (i + j) # q' \<and> j < length ks
        \<and> textContents (ks[j := detachAt q' (ks ! j)]) = textsOutside sel ks"
proof (induction sel n and sel i ks arbitrary: q and q rule: querySelectorAll_matchesIn.induct)
  case (1 sel s)
  then show ?case by simp
next
  case (2 sel d n cls kids)
  from "2.IH"[of q] "2.prems" obtain j q' where
    "q = j # q'" "j < length kids"
    "textContents (kids[j := detachAt q' (kids ! j)]) = textsOutside sel kids"
    by auto
  then show ?case by simp
next
  case (3 sel i)
  then show ?case by simp
next
  case (4 sel i k ks)
  note noText = "4.prems"(2)
  show ?case
  proof (cases "isDetached k")
    case True
    with "4.prems" have "matchesIn sel (Suc i) ks = [q]" by simp
    from "4.IH"(2)[OF this noText] obtain j q' where
      "q = (Suc i + j) # q'" "j < length ks"
      "textContents (ks[j := detachAt q' (ks ! j)]) = textsOutside sel ks" by blast
    with True show ?thesis
      by (intro exI[of _ "Suc j"] exI[of _ q']) simp
  next
    case False
    from "4.prems"(1) False consider
        (here) "sel k" "q = [i]" "querySelectorAll sel k = []"
               "matchesIn sel (Suc i) ks = []"
      | (below) q' where "\<not> sel k" "q = i # q'" "querySelectorAll sel k = [q']"
               "matchesIn sel (Suc i) ks = []"
      | (later) "\<not> sel k" "querySelectorAll sel k = []"
               "matchesIn sel (Suc i) ks = [q]"
      by (auto simp: append_eq_Cons_conv map_eq_Cons_conv split: if_splits)
    then show ?thesis
    proof cases
      case here
      with noText obtain d n cls kids where k: "k = Element d n cls kids" by (cases k) auto
      from here no_match_textOutside(2)[of sel "Suc i" ks]
      show ?thesis by (intro exI[of _ 0] exI[of _ "[]"]) (simp add: k)
    next
      case below
      from below(3) have ne: "q' \<noteq> []" using querySelectorAll_nonempty[of q' sel k] by simp
      from "4.IH"(1)[OF False below(3) noText]
      have "textContent (detachAt q' k) = textOutside sel k" .
      with below False ne no_match_textOutside(2)[of sel "Suc i" ks]
      show ?thesis
        by (intro exI[of _ 0] exI[of _ q']) (simp add: isDetached_detachAt)
    next
      case later
      from "4.IH"(2)[OF later(3) noText] obtain j q' where
        "q = (Suc i + j) # q'" "j < length ks"
        "textContents (ks[j := detachAt q' (ks ! j)]) = textsOutside sel ks" by blast
      with later False no_match_textOutside(1)[of sel k]
      show ?thesis by (intro exI[of _ "Suc j"] exI[of _ q']) simp
    qed
  qed
qed

text \<open>The node at a path after an element was removed somewhere in the
  document.\<close>

lemma nodeAt_detachAt:
  "nodeAt (detachAt r doc) p =
     (case nodeAt doc p of
        None \<Rightarrow> None
      | Some n \<Rightarrow> Some (if take (length p) r = p then detachAt (drop (length p) r) n else n))"
proof (induction r doc arbitrary: p rule: detachAt.induct)
  case (1 r s)
  show ?case by (cases p) auto
next
  case (2 d n cls kids)
  show ?case by (cases p) (auto split: option.splits)
next
  case (3 i r d n cls kids)
  show ?case
  proof (cases p)
    case Nil
    then show ?thesis by simp
  next
    case (Cons j p')
    then show ?thesis using 3[of p'] by (auto simp: nth_list_update split: option.splits)
  qed
qed

text \<open>After \<open>editSpan.remove()\<close> the heading element of the document is the one
  whose text the callback takes.\<close>

lemma headingEl_after_remove:
  "nodeAt doc p = Some el \<Longrightarrow> nodeAt (detachAt (p @ q) doc) p = Some (detachAt q el)"
  by (simp add: nodeAt_detachAt)

lemma textsOutside_update:
  "i < length ks \<Longrightarrow> (isDetached k' \<or> sel k') = (isDetached (ks ! i) \<or> sel (ks ! i)) \<Longrightarrow>
   textOutside sel k' = textOutside sel (ks ! i) \<Longrightarrow>
   textsOutside sel (ks[i := k']) = textsOutside sel ks"
proof (induction ks arbitrary: i)
  case Nil
  then show ?case by simp
next
  case (Cons k ks)
  then show ?case by (cases i) auto
qed

lemma textOutside_detachAt:
  "(\<And>el. nodeAt n r = Some el \<Longrightarrow> hasClass c el) \<Longrightarrow>
   textOutside (hasClass c) (detachAt r n) = textOutside (hasClass c) n"
proof (induction r n rule: detachAt.induct)
  case (1 r s)
  show ?case by simp
next
  case (2 d n cls kids)
  show ?case by simp
next
  case (3 i r d n cls kids)
  show ?case
  proof (cases "i < length kids")
    case False
    then show ?thesis by simp
  next
    case True
    have at: "\<And>el. nodeAt (kids ! i) r = Some el \<Longrightarrow> hasClass c el"
      using "3.prems" True by simp
    have t: "textOutside (hasClass c) (detachAt r (kids ! i)) = textOutside (hasClass c) (kids ! i)"
      using "3.IH"[OF True at] .
    have s: "(isDetached (detachAt r (kids ! i)) \<or> hasClass c (detachAt r (kids ! i)))
           = (isDetached (kids ! i) \<or> hasClass c (kids ! i))"
    proof (cases r)
      case Nil
      with at[of "kids ! i"] show ?thesis by (simp add: hasClass_detachAt)
    next
      case (Cons a r')
      then show ?thesis by (simp add: hasClass_detachAt isDetached_detachAt)
    qed
    from textsOutside_update[OF True s t] True show ?thesis by simp
  qed
qed

lemma length_matchesIn: "length (matchesIn sel i ks) = length (matchesIn sel 0 ks)"
proof (induction ks arbitrary: i)
  case Nil
  show ?case by simp
next
  case (Cons k ks)
  from Cons[of "Suc i"] Cons[of "Suc 0"] show ?case by simp
qed

lemma matchesIn_update:
  "j < length ks \<Longrightarrow> (isDetached (ks ! j) \<longrightarrow> isDetached k') \<Longrightarrow>
   (\<not> isDetached k' \<longrightarrow> sel k' = sel (ks ! j)
       \<and> length (querySelectorAll sel k') \<le> length (querySelectorAll sel (ks ! j))) \<Longrightarrow>
   length (matchesIn sel i (ks[j := k'])) \<le> length (matchesIn sel i ks)"
proof (induction ks arbitrary: i j)
  case Nil
  then show ?case by simp
next
  case (Cons k ks)
  show ?case
  proof (cases j)
    case 0
    with Cons.prems show ?thesis by auto
  next
    case (Suc j')
    with Cons.prems Cons.IH[of j' "Suc i"] show ?thesis by auto
  qed
qed

lemma length_querySelectorAll_detachAt:
  "length (querySelectorAll (hasClass c) (detachAt r n)) \<le> length (querySelectorAll (hasClass c) n)"
proof (induction r n rule: detachAt.induct)
  case (1 r s)
  show ?case by simp
next
  case (2 d n cls kids)
  show ?case by simp
next
  case (3 i r d n cls kids)
  show ?case
  proof (cases "i < length kids")
    case False
    then show ?thesis by simp
  next
    case True
    have d: "isDetached (kids ! i) \<longrightarrow> isDetached (detachAt r (kids ! i))"
      by (cases r; cases "kids ! i") auto
    from matchesIn_update[OF True d, of "hasClass c" 0] "3.IH"[OF True] True
    show ?thesis by (simp add: hasClass_detachAt)
  qed
qed

lemma prunedFrom_detachAt:
  assumes "prunedFrom cur orig" and "\<And>el. nodeAt cur r = Some el \<Longrightarrow> hasClass ''mw-editsection'' el"
  shows "prunedFrom (detachAt r cur) orig"
  using assms length_querySelectorAll_detachAt[of "''mw-editsection''" r cur]
  by (simp add: prunedFrom_def editSections_def textOutside_detachAt localName_detachAt)

lemma prunedFrom_refl: "prunedFrom n n"
  by (simp add: prunedFrom_def)

lemma heading_text_outside:
  assumes "length (editSections cur) \<le> 1"
  shows "(case querySelector (hasClass ''mw-editsection'') cur of
            None \<Rightarrow> trim (textContent cur)
          | Some q \<Rightarrow> trim (textContent (detachAt q cur)))
         = trim (textOutside (hasClass ''mw-editsection'') cur)"
proof (cases "editSections cur")
  case Nil
  then show ?thesis
    using no_match_textOutside(1)[of "hasClass ''mw-editsection''" cur]
    by (simp add: querySelector_def editSections_def)
next
  case (Cons q qs)
  with assms have qs: "qs = []" by simp
  have "\<forall>s. \<not> hasClass ''mw-editsection'' (Text s)" by simp
  with Cons qs one_match_textContent(1)[of "hasClass ''mw-editsection''" cur q]
  show ?thesis by (simp add: querySelector_def editSections_def)
qed

lemma headingCallback_result:
  assumes "nodeAt d p = Some cur"
  shows "fst (headingCallback dis p (d, hs))
           = (case querySelector (hasClass ''mw-editsection'') cur of
                None \<Rightarrow> d | Some q \<Rightarrow> detachAt (p @ q) d)"
    and "snd (headingCallback dis p (d, hs)) = hs
         \<or> snd (headingCallback dis p (d, hs))
             = hs @ [\<lparr> level = parseInt (substring1 (tagName cur)),
                       text = (case querySelector (hasClass ''mw-editsection'') cur of
                                 None \<Rightarrow> trim (textContent cur)
                               | Some q \<Rightarrow> trim (textContent (detachAt q cur))) \<rparr>]"
  using assms by (auto simp: headingCallback_def Let_def split: option.splits)

lemma headingCallback_pruned:
  assumes inv: "\<forall>r. rel_option prunedFrom (nodeAt d r) (nodeAt doc r)"
    and cur: "nodeAt d p = Some cur"
  shows "\<forall>r. rel_option prunedFrom (nodeAt (fst (headingCallback dis p (d, hs))) r) (nodeAt doc r)"
proof (cases "querySelector (hasClass ''mw-editsection'') cur")
  case None
  with headingCallback_result(1)[OF cur, of dis hs] inv show ?thesis by simp
next
  case (Some q)
  then have "q \<in> set (querySelectorAll (hasClass ''mw-editsection'') cur)"
    by (auto simp: querySelector_def split: list.splits)
  from querySelectorAll_sound(1)[OF this] obtain e where
    e: "nodeAt cur q = Some e" "hasClass ''mw-editsection'' e" by blast
  have pq: "nodeAt d (p @ q) = Some e" using cur e by (simp add: nodeAt_append)
  have d': "fst (headingCallback dis p (d, hs)) = detachAt (p @ q) d"
    using headingCallback_result(1)[OF cur, of dis hs] Some by simp
  show ?thesis
  proof
    fix r
    show "rel_option prunedFrom (nodeAt (fst (headingCallback dis p (d, hs))) r) (nodeAt doc r)"
    proof (cases "nodeAt d r")
      case None
      with inv[rule_format, of r] show ?thesis by (simp add: d' nodeAt_detachAt)
    next
      case (Some a)
      with inv[rule_format, of r] obtain b where b: "nodeAt doc r = Some b" "prunedFrom a b"
        by (cases "nodeAt doc r") auto
      show ?thesis
      proof (cases "take (length r) (p @ q) = r")
        case False
        with Some b show ?thesis by (simp add: d' nodeAt_detachAt)
      next
        case True
        then have "p @ q = r @ drop (length r) (p @ q)"
          by (metis append_take_drop_id)
        with pq Some have "nodeAt a (drop (length r) (p @ q)) = Some e"
          by (metis nodeAt_append option.simps(5))
        with e(2) have "\<And>el. nodeAt a (drop (length r) (p @ q)) = Some el \<Longrightarrow> hasClass ''mw-editsection'' el"
          by simp
        from prunedFrom_detachAt[OF b(2) this] True Some b show ?thesis
          by (simp add: d' nodeAt_detachAt)
      qed
    qed
  qed
qed

text \<open>Every call of the callback keeps each node of the document pruned from
  the node as parsed, and only ever appends to \<open>headers\<close>.\<close>

lemma headingCallback_pruned_any:
  assumes inv: "\<forall>r. rel_option prunedFrom (nodeAt d r) (nodeAt doc r)"
  shows "\<forall>r. rel_option prunedFrom (nodeAt (fst (headingCallback dis p (d, hs))) r) (nodeAt doc r)"
proof (cases "nodeAt d p")
  case None
  with inv show ?thesis by (simp add: headingCallback_def)
next
  case (Some cur)
  from headingCallback_pruned[OF inv Some] show ?thesis .
qed

lemma forEach_pruned:
  assumes "\<forall>r. rel_option prunedFrom (nodeAt d r) (nodeAt doc r)"
  shows "\<forall>r. rel_option prunedFrom
           (nodeAt (fst (foldl (\<lambda>state p. headingCallback dis p state) (d, hs) ps)) r)
           (nodeAt doc r)"
  using assms
proof (induction ps arbitrary: d hs)
  case Nil
  then show ?case by simp
next
  case (Cons p ps)
  obtain d' hs' where step: "headingCallback dis p (d, hs) = (d', hs')"
    by (cases "headingCallback dis p (d, hs)")
  from headingCallback_pruned_any[OF Cons.prems, of dis p hs] step
  have "\<forall>r. rel_option prunedFrom (nodeAt d' r) (nodeAt doc r)" by simp
  from Cons.IH[OF this, of hs'] step show ?case by simp
qed

lemma headingCallback_appends:
  "\<exists>rest. snd (headingCallback dis p (d, hs)) = hs @ rest"
  by (auto simp: headingCallback_def Let_def split: option.splits prod.splits)

lemma forEach_appends:
  "\<exists>rest. snd (foldl (\<lambda>state p. headingCallback dis p state) (d, hs) ps) = hs @ rest"
proof (induction ps arbitrary: d hs)
  case Nil
  show ?case by simp
next
  case (Cons p ps)
  obtain d' hs' where step: "headingCallback dis p (d, hs) = (d', hs')"
    by (cases "headingCallback dis p (d, hs)")
  from headingCallback_appends[of dis p d hs] step obtain r1 where r1: "hs' = hs @ r1" by auto
  from Cons.IH[of d' hs'] obtain r2 where
    "snd (foldl (\<lambda>state p. headingCallback dis p state) (d', hs') ps) = hs' @ r2" by blast
  with r1 step show ?case by simp
qed

lemma stateAfter_Suc:
  assumes "i < length (headingElements (P html))"
  shows "stateAfter P settings html (Suc i)
           = headingCallback (getProcessedDisallowedHeaders settings)
               (headingElements (P html) ! i) (stateAfter P settings html i)"
  using assms by (simp add: stateAfter_def Let_def take_Suc_conv_app_nth)

lemma parseWikipediaHtml_stateAfter:
  "parseWikipediaHtml P settings html
     = snd (foldl (\<lambda>state p. headingCallback (getProcessedDisallowedHeaders settings) p state)
              (stateAfter P settings html i) (drop i (headingElements (P html))))"
proof -
  have "foldl (\<lambda>state p. headingCallback (getProcessedDisallowedHeaders settings) p state)
          (P html, []) (take i (headingElements (P html)) @ drop i (headingElements (P html)))
        = foldl (\<lambda>state p. headingCallback (getProcessedDisallowedHeaders settings) p state)
              (stateAfter P settings html i) (drop i (headingElements (P html)))"
    unfolding foldl_append by (simp add: stateAfter_def Let_def)
  then show ?thesis by (simp add: parseWikipediaHtml_def Let_def)
qed

text \<open>
  Claim C9, as amended. Take any heading element of the parsed document, the
  \<open>i\<close>-th of the \<open>NodeList\<close>, that has at most one descendant of class
  \<open>mw-editsection\<close>, whatever the other headings hold. The call of the callback for
  it leaves \<open>headers\<close> as it is or appends one record, whose level is that of the
  tag and whose text is the trimmed text of the element outside its edit link: no
  text inside the edit link is part of it. The list that \<open>parseWikipediaHtml\<close>
  returns starts with \<open>headers\<close> as that call left it.
\<close>

theorem heading_text_outside_edit_section:
  assumes i: "i < length (headingElements (P html))"
    and el: "nodeAt (P html) (headingElements (P html) ! i) = Some el"
    and one: "length (editSections el) \<le> 1"
  shows "(snd (stateAfter P settings html (Suc i)) = snd (stateAfter P settings html i)
          \<or> snd (stateAfter P settings html (Suc i))
              = snd (stateAfter P settings html i)
                @ [\<lparr> level = parseInt (substring1 (tagName el)),
                      text = trim (textOutside (hasClass ''mw-editsection'') el) \<rparr>])
     \<and> (\<exists>rest. parseWikipediaHtml P settings html
                  = snd (stateAfter P settings html (Suc i)) @ rest)"
proof -
  let ?dis = "getProcessedDisallowedHeaders settings"
  let ?p = "headingElements (P html) ! i"
  obtain d hs where before: "stateAfter P settings html i = (d, hs)"
    by (cases "stateAfter P settings html i")
  have inv0: "\<forall>r. rel_option prunedFrom (nodeAt (P html) r) (nodeAt (P html) r)"
    by (simp add: option.rel_refl prunedFrom_refl)
  from forEach_pruned[OF inv0, of ?dis "[]" "take i (headingElements (P html))"] before
  have inv: "\<forall>r. rel_option prunedFrom (nodeAt d r) (nodeAt (P html) r)"
    by (simp add: stateAfter_def Let_def)
  with el obtain cur where cur: "nodeAt d ?p = Some cur" "prunedFrom cur el"
    using inv[rule_format, of ?p] by (cases "nodeAt d ?p") auto
  have one': "length (editSections cur) \<le> 1" using cur(2) one by (simp add: prunedFrom_def)
  have computed: "(case querySelector (hasClass ''mw-editsection'') cur of
                None \<Rightarrow> trim (textContent cur)
              | Some q \<Rightarrow> trim (textContent (detachAt q cur)))
             = trim (textOutside (hasClass ''mw-editsection'') el)"
    using heading_text_outside[OF one'] cur(2) by (simp add: prunedFrom_def)
  have tag: "tagName cur = tagName el" using cur(2) by (simp add: prunedFrom_def tagName_def)
  have step: "stateAfter P settings html (Suc i) = headingCallback ?dis ?p (d, hs)"
    using stateAfter_Suc[where P = P and html = html and settings = settings, OF i] before by simp
  have 1: "snd (stateAfter P settings html (Suc i)) = snd (stateAfter P settings html i)
          \<or> snd (stateAfter P settings html (Suc i))
              = snd (stateAfter P settings html i)
                @ [\<lparr> level = parseInt (substring1 (tagName el)),
                      text = trim (textOutside (hasClass ''mw-editsection'') el) \<rparr>]"
    using headingCallback_result(2)[OF cur(1), of ?dis hs] step before
    by (simp add: computed tag)
  obtain d' hs' where after: "stateAfter P settings html (Suc i) = (d', hs')"
    by (cases "stateAfter P settings html (Suc i)")
  from forEach_appends[of ?dis d' hs' "drop (Suc i) (headingElements (P html))"]
       parseWikipediaHtml_stateAfter[of P settings html "Suc i"] after
  have 2: "\<exists>rest. parseWikipediaHtml P settings html
                  = snd (stateAfter P settings html (Suc i)) @ rest"
    by simp
  from 1 2 show ?thesis by simp
qed

text \<open>On a body whose first heading holds two edit links and whose second
  holds one, the record of the second has the text outside its edit link.\<close>

theorem heading_text_outside_edit_section_witness:
  "(1::nat) < length (headingElements (mixedParser mixedHtml))
   \<and> nodeAt (mixedParser mixedHtml) (headingElements (mixedParser mixedHtml) ! 1)
       = Some (Element False ''h3'' []
                 [Text ''Early life'',
                  Element False ''span'' [''mw-editsection''] [Text ''[edit]'']])
   \<and> length (editSections (Element False ''h3'' []
                 [Text ''Early life'',
                  Element False ''span'' [''mw-editsection''] [Text ''[edit]'']])) \<le> 1
   \<and> snd (stateAfter mixedParser DEFAULT_SETTINGS mixedHtml 1)
       = [\<lparr> level = Num 2, text = ''History[source]'' \<rparr>]
   \<and> snd (stateAfter mixedParser DEFAULT_SETTINGS mixedHtml (Suc 1))
       = [\<lparr> level = Num 2, text = ''History[source]'' \<rparr>,
          \<lparr> level = Num 3, text = ''Early life'' \<rparr>]
   \<and> parseWikipediaHtml mixedParser DEFAULT_SETTINGS mixedHtml
       = [\<lparr> level = Num 2, text = ''History[source]'' \<rparr>,
          \<lparr> level = Num 3, text = ''Early life'' \<rparr>]"
proof -
  let ?h3 = "Element False ''h3'' []
                 [Text ''Early life'',
                  Element False ''span'' [''mw-editsection''] [Text ''[edit]'']]"
  have a: "(1::nat) < length (headingElements (mixedParser mixedHtml))" by code_simp
  have b: "nodeAt (mixedParser mixedHtml) (headingElements (mixedParser mixedHtml) ! 1) = Some ?h3"
    by code_simp
  have c: "length (editSections ?h3) \<le> 1" by code_simp
  have before: "snd (stateAfter mixedParser DEFAULT_SETTINGS mixedHtml 1)
       = [\<lparr> level = Num 2, text = ''History[source]'' \<rparr>]" by code_simp
  have grows: "length (snd (stateAfter mixedParser DEFAULT_SETTINGS mixedHtml (Suc 1))) = 2"
    by code_simp
  have lv: "parseInt (substring1 (tagName ?h3)) = Num 3" by code_simp
  have outside: "trim (textOutside (hasClass ''mw-editsection'') ?h3) = ''Early life''" by code_simp
  have all: "length (parseWikipediaHtml mixedParser DEFAULT_SETTINGS mixedHtml) = 2" by code_simp
  note inst = heading_text_outside_edit_section[where P = mixedParser and html = mixedHtml and settings = DEFAULT_SETTINGS
                  and i = 1 and el = ?h3, OF a b c]
  from inst before grows lv outside
  have after: "snd (stateAfter mixedParser DEFAULT_SETTINGS mixedHtml (Suc 1))
       = [\<lparr> level = Num 2, text = ''History[source]'' \<rparr>,
          \<lparr> level = Num 3, text = ''Early life'' \<rparr>]"
    by auto
  from inst obtain rest where
    "parseWikipediaHtml mixedParser DEFAULT_SETTINGS mixedHtml
       = snd (stateAfter mixedParser DEFAULT_SETTINGS mixedHtml (Suc 1)) @ rest" by blast
  with after all have "parseWikipediaHtml mixedParser DEFAULT_SETTINGS mixedHtml
       = [\<lparr> level = Num 2, text = ''History[source]'' \<rparr>,
          \<lparr> level = Num 3, text = ''Early life'' \<rparr>]" by simp
  with a b c before after show ?thesis by simp
qed

text \<open>The claim as it is written fails where a heading holds two edit links:
  only the first is removed, and the text of the second, \<open>[source]\<close>, is part of
  the text of the record, whereas the text of the heading outside its edit links
  is \<open>History\<close>.\<close>

theorem second_edit_link_leaks_counterexample:
  "parseWikipediaHtml exampleParser DEFAULT_SETTINGS twoEditHtml
     = [\<lparr> level = Num 2, text = ''History[source]'' \<rparr>]
   \<and> nodeAt (exampleParser twoEditHtml) [0, 1, 0, 0, 2]
       = Some (Element False ''span'' [''mw-editsection''] [Text ''[source]''])
   \<and> map_option (textOutside (hasClass ''mw-editsection'')) (nodeAt (exampleParser twoEditHtml) [0, 1, 0, 0])
       = Some ''History''"
  by code_simp

section \<open>The acquisition loop: errors stay inside\<close>

lemma loopBody_catches: "fst (loopBody h s net st) = None"
  by (simp add: loopBody_def Let_def split: prod.splits option.splits)

lemma whileLoop_no_error: "fst (whileLoop h s net st) = None"
proof (induction h s net st rule: whileLoop.induct)
  case (1 h s net st)
  show ?case
  proof (cases "\<not> foundSuitableArticle st \<and> int (retries st) < maxRetries s")
    case True
    obtain e st' where b: "loopBody h s net st = (e, st')" by (cases "loopBody h s net st")
    with loopBody_catches[of h s net st] have e: "e = None" by simp
    from 1[OF True b[unfolded e, symmetric] refl] e b True show ?thesis
      by (subst whileLoop.simps) simp
  next
    case False
    then show ?thesis by (subst whileLoop.simps) auto
  qed
qed

text \<open>
  Claim C2. On every network (every assignment of a failure, a status, a
  body or a success to the calls of every attempt), with every host and every
  settings, \<open>fetchAndProcessRandomWikipediaArticle\<close> returns: it completes with
  \<open>null\<close> or with an article record, never with an error.
\<close>

theorem fetchAndProcess_never_raises:
  "fst (fetchAndProcessRandomWikipediaArticle h s net) = Inr None
   \<or> (\<exists>a. fst (fetchAndProcessRandomWikipediaArticle h s net) = Inr (Some a))"
  using whileLoop_no_error[of h s net initialState]
  by (auto simp: fetchAndProcessRandomWikipediaArticle_def split: prod.splits option.splits)

text \<open>Two failed attempts out of two: the errors are logged, the result is
  \<open>null\<close>.\<close>

theorem fetchAndProcess_never_raises_witness:
  "fst (fetchAndProcessRandomWikipediaArticle exampleHost
          (DEFAULT_SETTINGS\<lparr> maxRetries := 2 \<rparr>) flakyNetwork) = Inr None
   \<and> \<not> (\<exists>a. fst (fetchAndProcessRandomWikipediaArticle exampleHost
          (DEFAULT_SETTINGS\<lparr> maxRetries := 2 \<rparr>) flakyNetwork) = Inr (Some a))"
proof -
  have "fst (fetchAndProcessRandomWikipediaArticle exampleHost
          (DEFAULT_SETTINGS\<lparr> maxRetries := 2 \<rparr>) flakyNetwork) \<noteq> Inl NetworkError"
    using fetchAndProcess_never_raises[of exampleHost "DEFAULT_SETTINGS\<lparr> maxRetries := 2 \<rparr>"
            flakyNetwork]
    by auto
  moreover have "fst (fetchAndProcessRandomWikipediaArticle exampleHost
          (DEFAULT_SETTINGS\<lparr> maxRetries := 2 \<rparr>) flakyNetwork) = Inr None"
    by code_simp
  ultimately show ?thesis by simp
qed

text \<open>
  Claim C3. With \<open>maxRetries = 0\<close> the loop returns \<open>null\<close>, and all it does
  is show the final notice: no call to the network is made.
\<close>

theorem maxRetries_zero_no_fetch:
  "maxRetries s = 0 \<Longrightarrow>
     fetchAndProcessRandomWikipediaArticle h s net
       = (Inr None, [ShowNotice (NoSuitableArticle 0) 5000])
     \<and> filter isFetchEvent (snd (fetchAndProcessRandomWikipediaArticle h s net)) = []"
  by (simp add: fetchAndProcessRandomWikipediaArticle_def initialState_def whileLoop.simps
        isFetchEvent_def)

theorem maxRetries_zero_no_fetch_witness:
  "maxRetries (DEFAULT_SETTINGS\<lparr> maxRetries := 0 \<rparr>) = 0
   \<and> fetchAndProcessRandomWikipediaArticle exampleHost (DEFAULT_SETTINGS\<lparr> maxRetries := 0 \<rparr>)
        steadyNetwork
       = (Inr None, [ShowNotice (NoSuitableArticle 0) 5000])"
proof -
  have z: "maxRetries (DEFAULT_SETTINGS\<lparr> maxRetries := 0 \<rparr>) = 0" by simp
  from maxRetries_zero_no_fetch[OF z, of exampleHost steadyNetwork] z show ?thesis by simp
qed

section \<open>The acquisition loop: attempts, notices and the accepted article\<close>

lemma loopBody_fails:
  assumes "attemptFails net (retries st)"
  shows "fst (loopBody h s net st) = None"
    and "foundSuitableArticle (snd (loopBody h s net st)) = foundSuitableArticle st"
    and "retries (snd (loopBody h s net st)) = retries st + 1"
    and "filter isAttemptNotice (events (snd (loopBody h s net st)))
           = filter isAttemptNotice (events st) @ [ShowNotice (FetchingAttempt (retries st + 1)) 1500]"
    and "filter isErrorNotice (events (snd (loopBody h s net st)))
           = filter isErrorNotice (events st) @ [ShowNotice (ParseFailedAttempt (retries st + 1)) 2500]"
  using assms
  by (auto simp: attemptFails_def loopBody_def tryBlock_def Let_def isAttemptNotice_def
        isErrorNotice_def split: sum.splits)

lemma loopBody_suitable:
  assumes "readTitle (randomTitle net (retries st)) = Inr t"
    and "readHtml (parsePage net (retries st) t) = Inr html"
    and "minHeaders s \<le> int (length (parseWikipediaHtml (parseFromString h) s html))"
  shows "loopBody h s net st =
           (None, st\<lparr> events := events st @ [ShowNotice (FetchingAttempt (retries st + 1)) 1500,
                                               FetchRandomTitle, FetchParse t],
                      articleTitle := t,
                      articleLink := ''https://en.wikipedia.org/wiki/'' @ encodeURIComponent t,
                      articleHtml := html,
                      parsedHeaders := parseWikipediaHtml (parseFromString h) s html,
                      foundSuitableArticle := True \<rparr>)"
  using assms by (simp add: loopBody_def tryBlock_def Let_def)

lemma loopBody_found:
  assumes "\<not> foundSuitableArticle st"
    and "foundSuitableArticle (snd (loopBody h s net st))"
  shows "\<exists>t html. readTitle (randomTitle net (retries st)) = Inr t
           \<and> readHtml (parsePage net (retries st) t) = Inr html
           \<and> minHeaders s \<le> int (length (parseWikipediaHtml (parseFromString h) s html))
           \<and> retries (snd (loopBody h s net st)) = retries st
           \<and> articleTitle (snd (loopBody h s net st)) = t
           \<and> articleLink (snd (loopBody h s net st))
                = ''https://en.wikipedia.org/wiki/'' @ encodeURIComponent t
           \<and> parsedHeaders (snd (loopBody h s net st))
                = parseWikipediaHtml (parseFromString h) s html"
  using assms
  by (auto simp: loopBody_def tryBlock_def Let_def split: sum.splits if_splits)

lemma loopBody_not_found:
  assumes "\<not> foundSuitableArticle (snd (loopBody h s net st))"
  shows "retries (snd (loopBody h s net st)) = retries st + 1"
    and "\<not> attemptSuitable h s net (retries st)"
  using assms
  by (auto simp: loopBody_def tryBlock_def Let_def attemptSuitable_def split: sum.splits if_splits)

lemma whileLoop_step:
  assumes "\<not> foundSuitableArticle st" "int (retries st) < maxRetries s"
  shows "whileLoop h s net st = whileLoop h s net (snd (loopBody h s net st))"
proof -
  obtain e st' where b: "loopBody h s net st = (e, st')" by (cases "loopBody h s net st")
  moreover from b have "e = None" using loopBody_catches[of h s net st] by simp
  ultimately show ?thesis using assms by (subst whileLoop.simps) simp
qed

lemma whileLoop_stop:
  "foundSuitableArticle st \<or> \<not> int (retries st) < maxRetries s \<Longrightarrow> whileLoop h s net st = (None, st)"
  by (subst whileLoop.simps) auto

lemma whileLoop_found:
  assumes "\<not> foundSuitableArticle st"
    and "\<forall>i<retries st. \<not> attemptSuitable h s net i"
    and "foundSuitableArticle (snd (whileLoop h s net st))"
  shows "\<exists>j t html. retries (snd (whileLoop h s net st)) = j \<and> int j < maxRetries s
           \<and> readTitle (randomTitle net j) = Inr t
           \<and> readHtml (parsePage net j t) = Inr html
           \<and> minHeaders s \<le> int (length (parseWikipediaHtml (parseFromString h) s html))
           \<and> articleTitle (snd (whileLoop h s net st)) = t
           \<and> articleLink (snd (whileLoop h s net st))
                = ''https://en.wikipedia.org/wiki/'' @ encodeURIComponent t
           \<and> parsedHeaders (snd (whileLoop h s net st))
                = parseWikipediaHtml (parseFromString h) s html
           \<and> (\<forall>i<j. \<not> attemptSuitable h s net i)"
  using assms
proof (induction h s net st rule: whileLoop.induct)
  case (1 h s net st)
  show ?case
  proof (cases "int (retries st) < maxRetries s")
    case False
    with "1.prems" show ?thesis by (simp add: whileLoop_stop)
  next
    case True
    let ?st' = "snd (loopBody h s net st)"
    have step: "whileLoop h s net st = whileLoop h s net ?st'"
      using whileLoop_step[OF "1.prems"(1) True] .
    have b: "(None, ?st') = loopBody h s net st"
      using loopBody_catches[of h s net st] by (cases "loopBody h s net st") simp
    show ?thesis
    proof (cases "foundSuitableArticle ?st'")
      case True
      from loopBody_found[OF "1.prems"(1) True] obtain t html where
        f: "readTitle (randomTitle net (retries st)) = Inr t"
           "readHtml (parsePage net (retries st) t) = Inr html"
           "minHeaders s \<le> int (length (parseWikipediaHtml (parseFromString h) s html))"
           "retries ?st' = retries st" "articleTitle ?st' = t"
           "articleLink ?st' = ''https://en.wikipedia.org/wiki/'' @ encodeURIComponent t"
           "parsedHeaders ?st' = parseWikipediaHtml (parseFromString h) s html"
        by blast
      have "whileLoop h s net st = (None, ?st')"
        using step True by (simp add: whileLoop_stop)
      with f \<open>int (retries st) < maxRetries s\<close> "1.prems"(2) show ?thesis by auto
    next
      case False
      from loopBody_not_found[OF False] have r: "retries ?st' = retries st + 1"
        and ns: "\<not> attemptSuitable h s net (retries st)" by simp_all
      have earlier: "\<forall>i<retries ?st'. \<not> attemptSuitable h s net i"
        using "1.prems"(2) ns r by (auto simp: less_Suc_eq)
      have "foundSuitableArticle (snd (whileLoop h s net ?st'))"
        using "1.prems"(3) step by simp
      from "1.IH"[OF _ b refl False earlier this] "1.prems"(1) True
      show ?thesis using step by simp
    qed
  qed
qed

lemma whileLoop_fails_then_suitable:
  assumes "\<not> foundSuitableArticle st"
    and "\<forall>i. retries st \<le> i \<and> i < retries st + n \<longrightarrow> attemptFails net i"
    and "readTitle (randomTitle net (retries st + n)) = Inr t"
    and "readHtml (parsePage net (retries st + n) t) = Inr html"
    and "minHeaders s \<le> int (length (parseWikipediaHtml (parseFromString h) s html))"
    and "int (retries st + n) < maxRetries s"
  shows "foundSuitableArticle (snd (whileLoop h s net st))
     \<and> retries (snd (whileLoop h s net st)) = retries st + n
     \<and> filter isAttemptNotice (events (snd (whileLoop h s net st)))
         = filter isAttemptNotice (events st)
           @ map (\<lambda>j. ShowNotice (FetchingAttempt (j + 1)) 1500) [retries st ..< retries st + n + 1]
     \<and> filter isErrorNotice (events (snd (whileLoop h s net st)))
         = filter isErrorNotice (events st)
           @ map (\<lambda>j. ShowNotice (ParseFailedAttempt (j + 1)) 2500) [retries st ..< retries st + n]
     \<and> articleTitle (snd (whileLoop h s net st)) = t
     \<and> articleLink (snd (whileLoop h s net st)) = ''https://en.wikipedia.org/wiki/'' @ encodeURIComponent t
     \<and> parsedHeaders (snd (whileLoop h s net st)) = parseWikipediaHtml (parseFromString h) s html"
  using assms
proof (induction n arbitrary: st)
  case 0
  have lt: "int (retries st) < maxRetries s" using 0 by simp
  have "whileLoop h s net st = whileLoop h s net (snd (loopBody h s net st))"
    using whileLoop_step[OF "0.prems"(1) lt] .
  also have "\<dots> = (None, snd (loopBody h s net st))"
    using loopBody_suitable[of net st t html s h] 0 by (simp add: whileLoop_stop)
  finally show ?case
    using loopBody_suitable[of net st t html s h] 0
    by (simp add: isAttemptNotice_def isErrorNotice_def)
next
  case (Suc n)
  let ?st' = "snd (loopBody h s net st)"
  have lt: "int (retries st) < maxRetries s" using Suc.prems by simp
  have fl: "attemptFails net (retries st)" using Suc.prems(2) by simp
  note lb = loopBody_fails[OF fl, of h s]
  have step: "whileLoop h s net st = whileLoop h s net ?st'"
    using whileLoop_step[OF Suc.prems(1) lt] .
  have r: "retries ?st' + n = retries st + Suc n" using lb(3) by simp
  have 1: "\<not> foundSuitableArticle ?st'" using lb(2) Suc.prems(1) by simp
  have 2: "\<forall>i. retries ?st' \<le> i \<and> i < retries ?st' + n \<longrightarrow> attemptFails net i"
    using Suc.prems(2) lb(3) by simp
  have 3: "readTitle (randomTitle net (retries ?st' + n)) = Inr t"
    using Suc.prems(3) r by simp
  have 4: "readHtml (parsePage net (retries ?st' + n) t) = Inr html"
    using Suc.prems(4) r by simp
  have 5: "int (retries ?st' + n) < maxRetries s" using Suc.prems(6) r by simp
  have up: "[retries st ..< retries st + Suc n + 1] = retries st # [retries st + 1 ..< retries st + 1 + n + 1]"
    by (simp add: upt_rec[of "retries st"])
  have up2: "[retries st ..< retries st + Suc n] = retries st # [retries st + 1 ..< retries st + 1 + n]"
    by (simp add: upt_rec[of "retries st"])
  from Suc.IH[OF 1 2 3 4 Suc.prems(5) 5]
  show ?case
    unfolding step up up2 using lb(3,4,5) by simp
qed

lemma attemptSuitableE:
  assumes "attemptSuitable h s net j"
  obtains t html where "readTitle (randomTitle net j) = Inr t" "readHtml (parsePage net j t) = Inr html"
    "minHeaders s \<le> int (length (parseWikipediaHtml (parseFromString h) s html))"
  using assms by (auto simp: attemptSuitable_def split: sum.splits)

text \<open>
  Claim C7, as amended. If \<open>maxRetries\<close> is at least 1 and the first attempt
  completes without error and yields markup with at least \<open>minHeaders\<close> parsed
  headers (as it does when every attempt would), then the loop returns the
  record of that attempt after one attempt: one notice and the two calls.
\<close>

theorem first_attempt_accepts:
  assumes "1 \<le> maxRetries s" and "attemptSuitable h s net 0"
  shows "\<exists>t html. readTitle (randomTitle net 0) = Inr t \<and> readHtml (parsePage net 0 t) = Inr html
     \<and> fetchAndProcessRandomWikipediaArticle h s net
        = (Inr (Some \<lparr> title = t, link = ''https://en.wikipedia.org/wiki/'' @ encodeURIComponent t,
                        headers = parseWikipediaHtml (parseFromString h) s html,
                        datePrefix = momentDate h \<rparr>),
           [ShowNotice (FetchingAttempt 1) 1500, FetchRandomTitle, FetchParse t])"
proof -
  from assms(2) obtain t html where f: "readTitle (randomTitle net 0) = Inr t"
    "readHtml (parsePage net 0 t) = Inr html"
    "minHeaders s \<le> int (length (parseWikipediaHtml (parseFromString h) s html))"
    by (rule attemptSuitableE)
  have r0: "retries initialState = 0" and nf: "\<not> foundSuitableArticle initialState"
    by (simp_all add: initialState_def)
  have lb: "loopBody h s net initialState =
           (None, initialState\<lparr> events := events initialState @ [ShowNotice (FetchingAttempt (retries initialState + 1)) 1500,
                                               FetchRandomTitle, FetchParse t],
                      articleTitle := t,
                      articleLink := ''https://en.wikipedia.org/wiki/'' @ encodeURIComponent t,
                      articleHtml := html,
                      parsedHeaders := parseWikipediaHtml (parseFromString h) s html,
                      foundSuitableArticle := True \<rparr>)"
    using loopBody_suitable[of net initialState t html s h] f by (simp add: r0)
  have "whileLoop h s net initialState = whileLoop h s net (snd (loopBody h s net initialState))"
    using whileLoop_step[OF nf, of s h net] assms(1) by (simp add: r0)
  also have "\<dots> = (None, snd (loopBody h s net initialState))"
    unfolding lb by (simp add: whileLoop_stop)
  finally have "whileLoop h s net initialState = (None, snd (loopBody h s net initialState))" .
  then show ?thesis using f(1,2)
    unfolding fetchAndProcessRandomWikipediaArticle_def lb by (simp add: initialState_def)
qed

theorem first_attempt_accepts_witness:
  "1 \<le> maxRetries DEFAULT_SETTINGS \<and> attemptSuitable exampleHost DEFAULT_SETTINGS steadyNetwork 0
   \<and> (\<exists>t html. readTitle (randomTitle steadyNetwork 0) = Inr t \<and> readHtml (parsePage steadyNetwork 0 t) = Inr html
     \<and> fetchAndProcessRandomWikipediaArticle exampleHost DEFAULT_SETTINGS steadyNetwork
        = (Inr (Some \<lparr> title = t, link = ''https://en.wikipedia.org/wiki/'' @ encodeURIComponent t,
                        headers = parseWikipediaHtml (parseFromString exampleHost) DEFAULT_SETTINGS html,
                        datePrefix = momentDate exampleHost \<rparr>),
           [ShowNotice (FetchingAttempt 1) 1500, FetchRandomTitle, FetchParse t]))"
proof -
  have a: "1 \<le> maxRetries DEFAULT_SETTINGS" by (simp add: DEFAULT_SETTINGS_def)
  have b: "attemptSuitable exampleHost DEFAULT_SETTINGS steadyNetwork 0" by code_simp
  from first_attempt_accepts[OF a b] a b show ?thesis by simp
qed

text \<open>The claim as it is written fails for \<open>maxRetries = 0\<close>: on a network
  where every attempt would succeed with enough headings, the loop makes no
  attempt and returns \<open>null\<close>.\<close>

theorem no_attempt_when_maxRetries_zero_counterexample:
  "attemptSuitable exampleHost (DEFAULT_SETTINGS\<lparr> maxRetries := 0 \<rparr>) steadyNetwork 0
   \<and> fst (fetchAndProcessRandomWikipediaArticle exampleHost (DEFAULT_SETTINGS\<lparr> maxRetries := 0 \<rparr>) steadyNetwork) = Inr None"
  by code_simp

text \<open>
  Claim C8. Let \<open>1 \<le> k \<le> maxRetries\<close>. If each of the first \<open>k - 1\<close> attempts
  fails with an error and the \<open>k\<close>-th succeeds with enough headings, then the
  loop returns a record, the counter \<open>retries\<close> ends at \<open>k - 1\<close>, the attempts
  announced are exactly the attempts 1 to \<open>k\<close> in this order, and the error notices
  shown are exactly those of the attempts 1 to \<open>k - 1\<close>.
\<close>

theorem first_success_at_attempt_k:
  assumes "1 \<le> k" and "int k \<le> maxRetries s"
    and "\<forall>i<k - 1. attemptFails net i"
    and "attemptSuitable h s net (k - 1)"
  shows "(\<exists>a. fst (fetchAndProcessRandomWikipediaArticle h s net) = Inr (Some a))
     \<and> retries (snd (whileLoop h s net initialState)) = k - 1
     \<and> filter isAttemptNotice (snd (fetchAndProcessRandomWikipediaArticle h s net))
         = map (\<lambda>j. ShowNotice (FetchingAttempt j) 1500) [1 ..< k + 1]
     \<and> filter isErrorNotice (snd (fetchAndProcessRandomWikipediaArticle h s net))
         = map (\<lambda>j. ShowNotice (ParseFailedAttempt j) 2500) [1 ..< k]"
proof -
  from assms(4) obtain t html where f: "readTitle (randomTitle net (k - 1)) = Inr t"
    "readHtml (parsePage net (k - 1) t) = Inr html"
    "minHeaders s \<le> int (length (parseWikipediaHtml (parseFromString h) s html))"
    by (rule attemptSuitableE)
  have r0: "retries initialState = 0" and nf: "\<not> foundSuitableArticle initialState"
    and e0: "events initialState = []"
    by (simp_all add: initialState_def)
  have fails: "\<forall>i. retries initialState \<le> i \<and> i < retries initialState + (k - 1) \<longrightarrow> attemptFails net i"
    using assms(3) by (simp add: r0)
  have lt: "int (retries initialState + (k - 1)) < maxRetries s"
    using assms(1,2) by (simp add: r0)
  have f1: "readTitle (randomTitle net (retries initialState + (k - 1))) = Inr t"
    using f(1) by (simp add: r0)
  have f2: "readHtml (parsePage net (retries initialState + (k - 1)) t) = Inr html"
    using f(2) by (simp add: r0)
  note main = whileLoop_fails_then_suitable[OF nf fails f1 f2 f(3) lt]
  have loop: "foundSuitableArticle (snd (whileLoop h s net initialState))"
    "retries (snd (whileLoop h s net initialState)) = k - 1"
    "filter isAttemptNotice (events (snd (whileLoop h s net initialState)))
       = map (\<lambda>j. ShowNotice (FetchingAttempt (j + 1)) 1500) [0 ..< k - 1 + 1]"
    "filter isErrorNotice (events (snd (whileLoop h s net initialState)))
       = map (\<lambda>j. ShowNotice (ParseFailedAttempt (j + 1)) 2500) [0 ..< k - 1]"
    using main by (simp_all add: r0 e0)
  have shift: "map (\<lambda>j. g (j + 1)) [0 ..< n] = map g [1 ..< n + 1]" for g :: "nat \<Rightarrow> event" and n
  proof -
    have "[1 ..< n + 1] = map Suc [0 ..< n]"
      by (simp add: map_Suc_upt del: upt_Suc)
    then show ?thesis by (simp add: o_def del: upt_Suc)
  qed
  have k1: "k - 1 + 1 = k" using assms(1) by simp
  obtain st where w: "whileLoop h s net initialState = (None, st)"
    using whileLoop_no_error[of h s net initialState]
    by (cases "whileLoop h s net initialState") auto
  from loop w have st: "foundSuitableArticle st" "retries st = k - 1"
    "filter isAttemptNotice (events st) = map (\<lambda>j. ShowNotice (FetchingAttempt j) 1500) [1 ..< k + 1]"
    "filter isErrorNotice (events st) = map (\<lambda>j. ShowNotice (ParseFailedAttempt j) 2500) [1 ..< k]"
    using shift[of "\<lambda>j. ShowNotice (FetchingAttempt j) 1500" "k - 1 + 1"]
          shift[of "\<lambda>j. ShowNotice (ParseFailedAttempt j) 2500" "k - 1"] k1
    by simp_all
  show ?thesis using st w by (simp add: fetchAndProcessRandomWikipediaArticle_def)
qed

theorem first_success_at_attempt_k_witness:
  "(1::nat) \<le> 3 \<and> int 3 \<le> maxRetries DEFAULT_SETTINGS
   \<and> attemptFails flakyNetwork 0 \<and> attemptFails flakyNetwork 1
   \<and> attemptSuitable exampleHost DEFAULT_SETTINGS flakyNetwork (3 - 1)
   \<and> retries (snd (whileLoop exampleHost DEFAULT_SETTINGS flakyNetwork initialState)) = 2
   \<and> filter isAttemptNotice (snd (fetchAndProcessRandomWikipediaArticle exampleHost DEFAULT_SETTINGS flakyNetwork))
       = [ShowNotice (FetchingAttempt 1) 1500, ShowNotice (FetchingAttempt 2) 1500, ShowNotice (FetchingAttempt 3) 1500]
   \<and> filter isErrorNotice (snd (fetchAndProcessRandomWikipediaArticle exampleHost DEFAULT_SETTINGS flakyNetwork))
       = [ShowNotice (ParseFailedAttempt 1) 2500, ShowNotice (ParseFailedAttempt 2) 2500]"
proof -
  have a: "(1::nat) \<le> 3" by simp
  have b: "int 3 \<le> maxRetries DEFAULT_SETTINGS" by (simp add: DEFAULT_SETTINGS_def)
  have c: "\<forall>i<3 - 1. attemptFails flakyNetwork i"
  proof (intro allI impI)
    fix i :: nat assume "i < 3 - 1"
    then have "i = 0 \<or> i = 1" by auto
    then show "attemptFails flakyNetwork i"
      by (auto simp: attemptFails_def flakyNetwork_def)
  qed
  have d: "attemptSuitable exampleHost DEFAULT_SETTINGS flakyNetwork (3 - 1)" by code_simp
  have u1: "[Suc 0 ..< 4] = [Suc 0, 2, 3]" and u2: "[Suc 0 ..< 3] = [Suc 0, 2]" by code_simp+
  have c0: "attemptFails flakyNetwork 0" and c1: "attemptFails flakyNetwork 1"
    using c by simp_all
  from first_success_at_attempt_k[OF a b c d] a b c0 c1 d show ?thesis by (simp add: u1 u2)
qed

text \<open>
  Claim C10. A record that the loop returns is the record of one attempt
  \<open>j < maxRetries\<close>, the first that succeeds with enough headings: its title is the
  title fetched in that attempt, its link is the Wikipedia address of that title,
  its headers are the headers parsed from the markup fetched in that attempt for
  that title, and there are at least \<open>minHeaders\<close> of them.
\<close>

theorem accepted_article_from_one_attempt:
  assumes "fst (fetchAndProcessRandomWikipediaArticle h s net) = Inr (Some a)"
  shows "\<exists>j t html. int j < maxRetries s
           \<and> (\<forall>i<j. \<not> attemptSuitable h s net i)
           \<and> readTitle (randomTitle net j) = Inr t
           \<and> readHtml (parsePage net j t) = Inr html
           \<and> a = \<lparr> title = t, link = ''https://en.wikipedia.org/wiki/'' @ encodeURIComponent t,
                    headers = parseWikipediaHtml (parseFromString h) s html,
                    datePrefix = momentDate h \<rparr>
           \<and> minHeaders s \<le> int (length (headers a))"
proof -
  obtain st where w: "whileLoop h s net initialState = (None, st)"
    using whileLoop_no_error[of h s net initialState]
    by (cases "whileLoop h s net initialState") auto
  from assms w have found: "foundSuitableArticle st"
    and a: "a = \<lparr> title = articleTitle st, link = articleLink st, headers = parsedHeaders st,
                  datePrefix = momentDate h \<rparr>"
    by (auto simp: fetchAndProcessRandomWikipediaArticle_def split: if_splits)
  have nf: "\<not> foundSuitableArticle initialState"
    and none: "\<forall>i<retries initialState. \<not> attemptSuitable h s net i"
    by (simp_all add: initialState_def)
  from whileLoop_found[OF nf none] found w obtain j t html where
    "int j < maxRetries s" "readTitle (randomTitle net j) = Inr t"
    "readHtml (parsePage net j t) = Inr html"
    "minHeaders s \<le> int (length (parseWikipediaHtml (parseFromString h) s html))"
    "articleTitle st = t" "articleLink st = ''https://en.wikipedia.org/wiki/'' @ encodeURIComponent t"
    "parsedHeaders st = parseWikipediaHtml (parseFromString h) s html"
    "\<forall>i<j. \<not> attemptSuitable h s net i"
    by auto
  with a show ?thesis by (intro exI[of _ j] exI[of _ t] exI[of _ html]) simp
qed

theorem accepted_article_from_one_attempt_witness:
  "fst (fetchAndProcessRandomWikipediaArticle exampleHost DEFAULT_SETTINGS flakyNetwork)
     = Inr (Some \<lparr> title = ''Foo'', link = ''https://en.wikipedia.org/wiki/Foo'',
                    headers = [\<lparr> level = Num 2, text = ''History'' \<rparr>,
                               \<lparr> level = Num 3, text = ''Early life'' \<rparr>,
                               \<lparr> level = Num 2, text = ''Legacy'' \<rparr>],
                    datePrefix = ''2024-01-01'' \<rparr>)
   \<and> (\<exists>j t html. int j < maxRetries DEFAULT_SETTINGS
           \<and> (\<forall>i<j. \<not> attemptSuitable exampleHost DEFAULT_SETTINGS flakyNetwork i)
           \<and> readTitle (randomTitle flakyNetwork j) = Inr t
           \<and> readHtml (parsePage flakyNetwork j t) = Inr html
           \<and> t = ''Foo''
           \<and> parseWikipediaHtml (parseFromString exampleHost) DEFAULT_SETTINGS html
               = [\<lparr> level = Num 2, text = ''History'' \<rparr>,
                  \<lparr> level = Num 3, text = ''Early life'' \<rparr>,
                  \<lparr> level = Num 2, text = ''Legacy'' \<rparr>])"
proof -
  have r: "fst (fetchAndProcessRandomWikipediaArticle exampleHost DEFAULT_SETTINGS flakyNetwork)
     = Inr (Some \<lparr> title = ''Foo'', link = ''https://en.wikipedia.org/wiki/Foo'',
                    headers = [\<lparr> level = Num 2, text = ''History'' \<rparr>,
                               \<lparr> level = Num 3, text = ''Early life'' \<rparr>,
                               \<lparr> level = Num 2, text = ''Legacy'' \<rparr>],
                    datePrefix = ''2024-01-01'' \<rparr>)"
    by code_simp
  from accepted_article_from_one_attempt[OF r] obtain j t html where
    j: "int j < maxRetries DEFAULT_SETTINGS"
       "\<forall>i<j. \<not> attemptSuitable exampleHost DEFAULT_SETTINGS flakyNetwork i"
       "readTitle (randomTitle flakyNetwork j) = Inr t"
       "readHtml (parsePage flakyNetwork j t) = Inr html"
    and eq: "\<lparr> title = ''Foo'', link = ''https://en.wikipedia.org/wiki/Foo'',
                    headers = [\<lparr> level = Num 2, text = ''History'' \<rparr>,
                               \<lparr> level = Num 3, text = ''Early life'' \<rparr>,
                               \<lparr> level = Num 2, text = ''Legacy'' \<rparr>],
                    datePrefix = ''2024-01-01'' \<rparr>
             = \<lparr> title = t, link = ''https://en.wikipedia.org/wiki/'' @ encodeURIComponent t,
                    headers = parseWikipediaHtml (parseFromString exampleHost) DEFAULT_SETTINGS html,
                    datePrefix = momentDate exampleHost \<rparr>"
    by blast
  from eq have "t = ''Foo''"
    and "parseWikipediaHtml (parseFromString exampleHost) DEFAULT_SETTINGS html
               = [\<lparr> level = Num 2, text = ''History'' \<rparr>,
                  \<lparr> level = Num 3, text = ''Early life'' \<rparr>,
                  \<lparr> level = Num 2, text = ''Legacy'' \<rparr>]"
    by simp_all
  with j r show ?thesis by blast
qed

section \<open>The renderer\<close>

lemma foldl_append_concat:
  "foldl (\<lambda>md h. md @ f h) acc hs = acc @ concat (map f hs)"
  by (induction hs arbitrary: acc) auto

lemma repeat_hash: "repeat ''#'' (Num n) = replicate n (CHR ''#'')"
  by (induction n) auto

text \<open>
  Claim C4, as amended. For every candidate, \<open>formatMarkdown\<close> produces
  exactly: the front matter with the tag \<open>wikipedia\<close>, an empty line, the
  timestamp line, the line \<open>**Related Topics**:\<close>, the link line, the title
  heading, an empty line, and then, when there are records, the heading line
  \<open>## Sections:\<close> followed by one heading line per record, each followed by an
  empty line, and one more line feed. The heading line of a record of level
  \<open>n\<close> starts with \<open>n\<close> number signs.
\<close>

theorem formatMarkdown_layout:
  "formatMarkdown now a =
     ''---\<newline>tags: wikipedia\<newline>---\<newline>\<newline>'' @ now
     @ ''\<newline>**Related Topics**:\<newline>**Link**: '' @ link a
     @ ''\<newline># '' @ title a @ '' #wikipedia\<newline>''
     @ (if headers a = []
        then ''\<newline>No significant sections found for this article.\<newline>\<newline>''
        else ''\<newline>## Sections:\<newline>''
             @ concat (map (\<lambda>h. repeat ''#'' (level h) @ '' '' @ text h @ ''\<newline>\<newline>'')
                         (headers a)))
     @ ''\<newline>''
   \<and> repeat ''#'' (Num n) = replicate n (CHR ''#'')"
  unfolding formatMarkdown_def Let_def by (simp add: foldl_append_concat repeat_hash)

theorem formatMarkdown_layout_witness:
  "formatMarkdown ''2024-01-01 12:00:00'' exampleArticle =
     ''---\<newline>tags: wikipedia\<newline>---\<newline>\<newline>2024-01-01 12:00:00\<newline>**Related Topics**:\<newline>**Link**: https://en.wikipedia.org/wiki/Foo\<newline># Foo #wikipedia\<newline>\<newline>## Sections:\<newline>## History\<newline>\<newline>\<newline>''"
proof -
  have "formatMarkdown ''2024-01-01 12:00:00'' exampleArticle =
     ''---\<newline>tags: wikipedia\<newline>---\<newline>\<newline>'' @ ''2024-01-01 12:00:00''
     @ ''\<newline>**Related Topics**:\<newline>**Link**: '' @ link exampleArticle
     @ ''\<newline># '' @ title exampleArticle @ '' #wikipedia\<newline>''
     @ (if headers exampleArticle = []
        then ''\<newline>No significant sections found for this article.\<newline>\<newline>''
        else ''\<newline>## Sections:\<newline>''
             @ concat (map (\<lambda>h. repeat ''#'' (level h) @ '' '' @ text h @ ''\<newline>\<newline>'')
                         (headers exampleArticle)))
     @ ''\<newline>''"
    using formatMarkdown_layout[of "''2024-01-01 12:00:00''" exampleArticle 2]
    by (rule conjunct1)
  also have "\<dots> = ''---\<newline>tags: wikipedia\<newline>---\<newline>\<newline>2024-01-01 12:00:00\<newline>**Related Topics**:\<newline>**Link**: https://en.wikipedia.org/wiki/Foo\<newline># Foo #wikipedia\<newline>\<newline>## Sections:\<newline>## History\<newline>\<newline>\<newline>''"
    by code_simp
  finally show ?thesis .
qed

text \<open>The claim as it is written fails on the candidate of the
  specification's own example: between the title heading and the heading line
  of the record stands the heading line \<open>## Sections:\<close>.\<close>

theorem formatMarkdown_sections_heading_counterexample:
  "filter isHeadingLine (splitLines (formatMarkdown ''2024-01-01 12:00:00'' exampleArticle))
     = [''# Foo #wikipedia'', ''## Sections:'', ''## History'']"
  by code_simp

text \<open>
  Claim C5. For a candidate without headings, \<open>formatMarkdown\<close> puts the line
  \<open>No significant sections found for this article.\<close> after the title heading,
  and what follows the title heading has no number sign in it: no heading
  marker.
\<close>

theorem formatMarkdown_no_sections:
  assumes "headers a = []"
  shows "\<exists>sections.
           formatMarkdown now a =
             ''---\<newline>tags: wikipedia\<newline>---\<newline>\<newline>'' @ now
             @ ''\<newline>**Related Topics**:\<newline>**Link**: '' @ link a
             @ ''\<newline># '' @ title a @ '' #wikipedia\<newline>'' @ sections
           \<and> sections = ''\<newline>No significant sections found for this article.\<newline>\<newline>\<newline>''
           \<and> CHR ''#'' \<notin> set sections"
  using assms unfolding formatMarkdown_def Let_def by simp

theorem formatMarkdown_no_sections_witness:
  "headers emptyArticle = []
   \<and> formatMarkdown ''2024-01-01 12:00:00'' emptyArticle =
       ''---\<newline>tags: wikipedia\<newline>---\<newline>\<newline>2024-01-01 12:00:00\<newline>**Related Topics**:\<newline>**Link**: https://en.wikipedia.org/wiki/Foo\<newline># Foo #wikipedia\<newline>\<newline>No significant sections found for this article.\<newline>\<newline>\<newline>''"
proof -
  have e: "headers emptyArticle = []" by (simp add: emptyArticle_def)
  from formatMarkdown_no_sections[OF e, of "''2024-01-01 12:00:00''"] e
  show ?thesis by (auto simp: emptyArticle_def)
qed

section \<open>The acceptance test\<close>

text \<open>
  Claim C6. When both calls of an attempt succeed, the \<open>try\<close> block throws
  nothing, and it accepts exactly when the number of parsed headers is at least
  \<open>minHeaders\<close>; otherwise it counts one more retry. Nothing else decides.
\<close>

theorem acceptance_is_length_comparison:
  assumes "readTitle (randomTitle net (retries st)) = Inr t"
    and "readHtml (parsePage net (retries st) t) = Inr html"
    and "\<not> foundSuitableArticle st"
  shows "fst (tryBlock h s net st) = None
     \<and> foundSuitableArticle (snd (tryBlock h s net st))
         = (minHeaders s \<le> int (length (parseWikipediaHtml (parseFromString h) s html)))
     \<and> parsedHeaders (snd (tryBlock h s net st))
         = parseWikipediaHtml (parseFromString h) s html
     \<and> retries (snd (tryBlock h s net st))
         = (if minHeaders s \<le> int (length (parseWikipediaHtml (parseFromString h) s html))
            then retries st else retries st + 1)"
  using assms by (simp add: tryBlock_def Let_def)

theorem acceptance_is_length_comparison_witness:
  "readTitle (randomTitle steadyNetwork (retries initialState)) = Inr ''Foo''
   \<and> readHtml (parsePage steadyNetwork (retries initialState) ''Foo'') = Inr exampleHtml
   \<and> \<not> foundSuitableArticle initialState
   \<and> foundSuitableArticle (snd (tryBlock exampleHost DEFAULT_SETTINGS steadyNetwork initialState))
   \<and> \<not> foundSuitableArticle
         (snd (tryBlock exampleHost (DEFAULT_SETTINGS\<lparr> minHeaders := 4 \<rparr>) steadyNetwork
                 initialState))"
proof -
  have t: "readTitle (randomTitle steadyNetwork (retries initialState)) = Inr ''Foo''"
    by (simp add: steadyNetwork_def)
  have p: "readHtml (parsePage steadyNetwork (retries initialState) ''Foo'') = Inr exampleHtml"
    by (simp add: steadyNetwork_def)
  have f: "\<not> foundSuitableArticle initialState"
    by (simp add: initialState_def)
  have n3: "length (parseWikipediaHtml (parseFromString exampleHost) DEFAULT_SETTINGS exampleHtml) = 3"
    by code_simp
  have n4: "length (parseWikipediaHtml (parseFromString exampleHost)
                      (DEFAULT_SETTINGS\<lparr> minHeaders := 4 \<rparr>) exampleHtml) = 3"
    by code_simp
  from acceptance_is_length_comparison[OF t p f, of exampleHost DEFAULT_SETTINGS]
       acceptance_is_length_comparison[OF t p f, of exampleHost "DEFAULT_SETTINGS\<lparr> minHeaders := 4 \<rparr>"]
       t p f n3 n4
  show ?thesis by (simp add: DEFAULT_SETTINGS_def)
qed

end
